theory Spec2Isabelle
  imports Complex_Main
begin

section \<open>The headtrackr session controller (src/main.js)\<close>

text \<open>
  The theory embeds \<^verbatim>\<open>headtrackr.Tracker\<close> of \<^verbatim>\<open>src/main.js\<close>: the constructor, \<^verbatim>\<open>init\<close>,
  \<^verbatim>\<open>track\<close>, \<^verbatim>\<open>starter\<close>, \<^verbatim>\<open>start\<close>, \<^verbatim>\<open>stop\<close> and \<^verbatim>\<open>getFOV\<close>. The closure variables of the
  constructor are the fields of the record \<open>tracker\<close>; every function takes the state and
  returns the new one. The numbers the controller reads (the fields of a tracking object,
  the parameters) are finite doubles, modelled by the reals they denote. The controller's
  own floating-point arithmetic (lines 177 and 184) is modelled on the type \<open>number\<close>, with
  the infinities and NaN, each operation rounding its exact result with the machine's
  rounding function, which the model takes as a parameter. The collaborators that live in other
  files (face tracker, smoother, pose estimator, the whitebalance probe, the clock) are
  an environment \<open>env\<close> read by each step, and every call the controller makes to them, and
  every status event it dispatches, is appended to the log \<open>out\<close>.
\<close>

subsection \<open>Data\<close>

text \<open>
  Modelled from the spec: the tracking object returned by
  \<^verbatim>\<open>facetracker.getTrackingObject\<close> (facetrackr.js is not part of the sources at hand). Its
  \<^verbatim>\<open>detection\<close> tag is one of "WB", "VJ", "CS" (whitebalancing, coarse detection, fine
  tracking).
\<close>

datatype mode = WB | VJ | CS

record faceObj =
  detection :: mode
  confidence :: real
  face_x :: real
  face_y :: real
  width :: real
  height :: real
  angle :: real

text \<open>
  The results of double arithmetic: a finite double (by its real value), the infinities
  and NaN. The rounding \<open>fl\<close> takes the exact real result of an operation to the double the
  machine returns for it (an infinity on overflow); the operations below are those of
  IEEE 754 on top of it. Signed zeros are not told apart.
\<close>

datatype number = Fin real | PInf | NInf | NaN

definition mul64 :: "(real \<Rightarrow> number) \<Rightarrow> real \<Rightarrow> real \<Rightarrow> number" where
  "mul64 fl a b = fl (a * b)"

fun add64 :: "(real \<Rightarrow> number) \<Rightarrow> number \<Rightarrow> number \<Rightarrow> number" where
  "add64 fl NaN y = NaN"
| "add64 fl x NaN = NaN"
| "add64 fl PInf NInf = NaN"
| "add64 fl NInf PInf = NaN"
| "add64 fl PInf y = PInf"
| "add64 fl x PInf = PInf"
| "add64 fl NInf y = NInf"
| "add64 fl x NInf = NInf"
| "add64 fl (Fin a) (Fin b) = fl (a + b)"

fun sub64 :: "(real \<Rightarrow> number) \<Rightarrow> number \<Rightarrow> number \<Rightarrow> number" where
  "sub64 fl NaN y = NaN"
| "sub64 fl x NaN = NaN"
| "sub64 fl PInf PInf = NaN"
| "sub64 fl NInf NInf = NaN"
| "sub64 fl PInf y = PInf"
| "sub64 fl x PInf = NInf"
| "sub64 fl NInf y = NInf"
| "sub64 fl x NInf = PInf"
| "sub64 fl (Fin a) (Fin b) = fl (a - b)"

fun sqrt64 :: "(real \<Rightarrow> number) \<Rightarrow> number \<Rightarrow> number" where
  "sqrt64 fl (Fin a) = (if a < 0 then NaN else fl (sqrt a))"
| "sqrt64 fl PInf = PInf"
| "sqrt64 fl NInf = NaN"
| "sqrt64 fl NaN = NaN"

text \<open>\<^verbatim>\<open>Math.max\<close> and \<^verbatim>\<open>Math.min\<close> of two numbers: NaN if either is.\<close>

fun max64 :: "number \<Rightarrow> number \<Rightarrow> number" where
  "max64 NaN y = NaN"
| "max64 x NaN = NaN"
| "max64 PInf y = PInf"
| "max64 x PInf = PInf"
| "max64 NInf y = y"
| "max64 x NInf = x"
| "max64 (Fin a) (Fin b) = Fin (max a b)"

fun min64 :: "number \<Rightarrow> number \<Rightarrow> number" where
  "min64 NaN y = NaN"
| "min64 x NaN = NaN"
| "min64 NInf y = NInf"
| "min64 x NInf = NInf"
| "min64 PInf y = y"
| "min64 x PInf = x"
| "min64 (Fin a) (Fin b) = Fin (min a b)"

text \<open>The comparison \<^verbatim>\<open>x < c\<close> with a finite \<open>c\<close>: false for NaN.\<close>

fun less64 :: "number \<Rightarrow> real \<Rightarrow> bool" where
  "less64 (Fin a) c = (a < c)"
| "less64 NInf c = True"
| "less64 PInf c = False"
| "less64 NaN c = False"

text \<open>The canvas handed to \<^verbatim>\<open>init\<close>; only its dimensions are read.\<close>

record canvas =
  canvas_width :: real
  canvas_height :: real

text \<open>
  The \<^verbatim>\<open>params\<close> object after the constructor has filled in its defaults (lines 35-52).
  \<^verbatim>\<open>params.fov\<close> has no default: \<open>None\<close> is \<^verbatim>\<open>undefined\<close>. \<^verbatim>\<open>debug\<close> is the truthiness
  of the debug canvas.
\<close>

record params =
  smoothing :: bool
  retryDetection :: bool
  ui :: bool
  debug :: bool
  detectionInterval :: real
  cameraOffset :: real
  calcAngles :: bool
  headPosition :: bool
  params_fov :: "real option"

text \<open>
  The options object of \<^verbatim>\<open>new headtrackr.facetrackr.Tracker(...)\<close>; \<open>whitebalancing = None\<close>
  when the key is left out (line 94), \<open>Some False\<close> at line 149.
\<close>

record facetracker_opts =
  whitebalancing :: "bool option"
  ft_debug :: bool
  ft_calcAngles :: bool

text \<open>
  The arguments of \<^verbatim>\<open>new headtrackr.headposition.Tracker(faceObj, w, h, {fov, distance})\<close>;
  \<open>hp_fov = None\<close> when the options carry no \<^verbatim>\<open>fov\<close> key (line 192).
\<close>

record headposition_args =
  hp_face :: faceObj
  hp_width :: real
  hp_height :: real
  hp_fov :: "real option"
  hp_offset :: real

text \<open>
  Modelled from the spec: \<^verbatim>\<open>headtrackr.Smoother\<close> (smoother.js is not part of the sources
  at hand). The controller reads its flag \<^verbatim>\<open>initialized\<close>; the spec's contract is that a
  new filter is not primed and that \<^verbatim>\<open>init(sample)\<close> primes it. What \<^verbatim>\<open>smooth\<close> returns is
  taken from the environment.
\<close>

record smoother_obj =
  sm_alpha :: real
  sm_interval :: real
  sm_initialized :: bool

definition new_Smoother :: "real \<Rightarrow> real \<Rightarrow> smoother_obj" where
  "new_Smoother a i = \<lparr>sm_alpha = a, sm_interval = i, sm_initialized = False\<rparr>"

definition smoother_init :: "smoother_obj \<Rightarrow> smoother_obj" where
  "smoother_init sm = sm\<lparr>sm_initialized := True\<rparr>"

text \<open>The two functions the controller hands to \<^verbatim>\<open>window.setTimeout\<close>.\<close>

datatype callback = TrackCb | StarterCb

text \<open>
  Calls to collaborators and dispatched events, in the order the controller makes them;
  \<open>HeadpositionGetFOV v\<close> is a call of \<^verbatim>\<open>headposition.getFOV()\<close> that returned \<open>v\<close>.
\<close>

datatype action =
    Dispatch string
  | NewUi
  | NewSmoother real real
  | NewFacetracker facetracker_opts
  | SmootherInit faceObj
  | NewHeadposition headposition_args
  | HeadpositionGetFOV real
  | HeadpositionTrack faceObj

text \<open>
  What one step reads from outside the controller: the tracking object the face tracker
  returns after \<^verbatim>\<open>facetracker.track()\<close>, the readings of \<^verbatim>\<open>(new Date).getTime()\<close> (the
  \<open>n\<close>-th call of the step returns \<open>clock n\<close>), the result of \<^verbatim>\<open>smoother.smooth\<close>, the value
  \<^verbatim>\<open>getFOV()\<close> of a newly built pose estimator, the result of
  \<^verbatim>\<open>headtrackr.getWhitebalance\<close> (\<open>None\<close> when it throws), and the machine's rounding
  (on a machine the same function at every step; binary64 rounds to nearest).
\<close>

record env =
  tracked :: faceObj
  clock :: "nat \<Rightarrow> int"
  smooth :: "faceObj \<Rightarrow> faceObj"
  hp_getFOV :: "headposition_args \<Rightarrow> real"
  whitebalance :: "real option"
  rounding :: "real \<Rightarrow> number"

text \<open>
  The closure of one \<^verbatim>\<open>headtrackr.Tracker\<close>: the \<^verbatim>\<open>var\<close>s of lines 54-61, the properties
  \<^verbatim>\<open>this.status\<close> and \<^verbatim>\<open>this.initialized\<close> (\<open>False\<close> while undefined), the global
  \<^verbatim>\<open>canvasElement\<close>, the browser's pending timeouts (id, callback, delay) with the next
  free id, and the log. The local \<^verbatim>\<open>var initialized = true\<close> of line 57 is never read and
  is left out.
\<close>

record tracker =
  smoother :: "smoother_obj option"
  facetracker :: "facetracker_opts option"
  headposition :: "headposition_args option"
  canvasElement :: "canvas option"
  detector :: "nat option"
  detectionTimer :: "int option"
  fov :: real
  this_initialized :: bool
  run :: bool
  faceFound :: bool
  firstRun :: bool
  headDiagonal :: "number list"
  status :: string
  timers :: "(nat \<times> callback \<times> real) list"
  next_timer :: nat
  out :: "action list"

datatype error = ReferenceError | TypeError

text \<open>
  A step either returns (\<open>Inr\<close>) or throws (\<open>Inl\<close>); a throw carries the state at the
  point of the throw, since the assignments made before it stay.
\<close>

type_synonym result = "(error \<times> tracker) + tracker"

text \<open>The state a step leaves behind, thrown or not.\<close>

fun state_of :: "result \<Rightarrow> tracker" where
  "state_of (Inl (err, s)) = s"
| "state_of (Inr s) = s"

subsection \<open>Constructor, status events, timers\<close>

text \<open>The closure right after \<^verbatim>\<open>new headtrackr.Tracker(params)\<close> (lines 54-63).\<close>

definition Tracker :: "tracker" where
  "Tracker =
     \<lparr>smoother = None, facetracker = None, headposition = None, canvasElement = None,
      detector = None, detectionTimer = None, fov = 0, this_initialized = False,
      run = False, faceFound = False, firstRun = True, headDiagonal = [],
      status = '''', timers = [], next_timer = 0, out = []\<rparr>"

definition headtrackerStatus :: "string \<Rightarrow> tracker \<Rightarrow> tracker" where
  "headtrackerStatus message s = s\<lparr>status := message, out := out s @ [Dispatch message]\<rparr>"

definition call :: "action \<Rightarrow> tracker \<Rightarrow> tracker" where
  "call a s = s\<lparr>out := out s @ [a]\<rparr>"

definition setTimeout :: "callback \<Rightarrow> real \<Rightarrow> tracker \<Rightarrow> nat \<times> tracker" where
  "setTimeout cb delay s =
     (next_timer s,
      s\<lparr>timers := timers s @ [(next_timer s, cb, delay)], next_timer := Suc (next_timer s)\<rparr>)"

definition clearTimeout :: "nat option \<Rightarrow> tracker \<Rightarrow> tracker" where
  "clearTimeout h s =
     (case h of None \<Rightarrow> s
      | Some i \<Rightarrow> s\<lparr>timers := filter (\<lambda>t. fst t \<noteq> i) (timers s)\<rparr>)"

text \<open>The status events dispatched so far.\<close>

fun dispatched :: "action list \<Rightarrow> string list" where
  "dispatched [] = []"
| "dispatched (Dispatch m # as) = m # dispatched as"
| "dispatched (_ # as) = dispatched as"

text \<open>The pose estimators built so far, by their constructor arguments.\<close>

fun constructed :: "action list \<Rightarrow> headposition_args list" where
  "constructed [] = []"
| "constructed (NewHeadposition h # as) = h # constructed as"
| "constructed (_ # as) = constructed as"

text \<open>The values \<^verbatim>\<open>headposition.getFOV()\<close> has returned so far.\<close>

fun calibrations :: "action list \<Rightarrow> real list" where
  "calibrations [] = []"
| "calibrations (HeadpositionGetFOV v # as) = v # calibrations as"
| "calibrations (_ # as) = calibrations as"

text \<open>The samples \<^verbatim>\<open>smoother.init\<close> has been called with so far.\<close>

fun smoother_inits :: "action list \<Rightarrow> faceObj list" where
  "smoother_inits [] = []"
| "smoother_inits (SmootherInit f # as) = f # smoother_inits as"
| "smoother_inits (_ # as) = smoother_inits as"

subsection \<open>init, stop, getFOV\<close>

definition init :: "params \<Rightarrow> canvas \<Rightarrow> tracker \<Rightarrow> tracker" where
  "init p cv s =
     (let s1 = headtrackerStatus ''getUserMedia'' s;
          s2 = s1\<lparr>canvasElement := Some cv\<rparr>;
          s3 = (if ui p then call NewUi s2 else s2);
          s4 = call (NewSmoother 0.35 (detectionInterval p + 15))
                 (s3\<lparr>smoother := Some (new_Smoother 0.35 (detectionInterval p + 15))\<rparr>)
      in s4\<lparr>this_initialized := True\<rparr>)"

definition stop :: "tracker \<Rightarrow> bool \<times> tracker" where
  "stop s =
     (let s1 = clearTimeout (detector s) s;
          s2 = s1\<lparr>run := False\<rparr>;
          s3 = headtrackerStatus ''stopped'' s2
      in (True, s3\<lparr>facetracker := None, faceFound := False\<rparr>))"

definition getFOV :: "tracker \<Rightarrow> real" where
  "getFOV s = fov s"

subsection \<open>The stability window (lines 177-187)\<close>

text \<open>
  \<^verbatim>\<open>Math.max.apply(null, a)\<close> and \<^verbatim>\<open>Math.min.apply(null, a)\<close>: of an empty array they are
  \<^verbatim>\<open>-Infinity\<close> and \<^verbatim>\<open>Infinity\<close>.
\<close>

definition Math_max :: "number list \<Rightarrow> number" where
  "Math_max a = fold max64 a NInf"

definition Math_min :: "number list \<Rightarrow> number" where
  "Math_min a = fold min64 a PInf"

text \<open>
  The window update with the flag \<^verbatim>\<open>stable\<close> it computes. \<^verbatim>\<open>splice(0,1)\<close> removes the
  oldest sample; the difference of the extrema is a double subtraction.
\<close>

definition push_diagonal ::
  "(real \<Rightarrow> number) \<Rightarrow> number \<Rightarrow> number list \<Rightarrow> number list \<times> bool" where
  "push_diagonal fl headdiag w =
     (if length w < 6 then (w @ [headdiag], False)
      else (let w' = drop 1 w @ [headdiag]
            in (w', less64 (sub64 fl (Math_max w') (Math_min w')) 5)))"

subsection \<open>track (lines 91-213)\<close>

text \<open>Lines 93-96. Reading the global \<^verbatim>\<open>canvasElement\<close> before any \<^verbatim>\<open>init\<close> throws.\<close>

definition ensure_facetracker :: "params \<Rightarrow> tracker \<Rightarrow> result" where
  "ensure_facetracker p s =
     (if facetracker s = None then
        (let opts = \<lparr>whitebalancing = None, ft_debug = debug p, ft_calcAngles = calcAngles p\<rparr>;
             s1 = call (NewFacetracker opts) (s\<lparr>facetracker := Some opts\<rparr>)
         in case canvasElement s1 of
              None \<Rightarrow> Inl (ReferenceError, s1)
            | Some cv \<Rightarrow> Inr s1)
      else Inr s)"

text \<open>Lines 102-103.\<close>

definition announce :: "faceObj \<Rightarrow> tracker \<Rightarrow> tracker" where
  "announce f s =
     (let s1 = (if detection f = WB then headtrackerStatus ''whitebalance'' s else s)
      in if firstRun s1 \<and> detection f = VJ then headtrackerStatus ''detecting'' s1 else s1)"

text \<open>Lines 107-124, without the debug drawing.\<close>

definition on_VJ :: "env \<Rightarrow> tracker \<Rightarrow> tracker" where
  "on_VJ e s =
     (case detectionTimer s of
        None \<Rightarrow>
          (let s1 = s\<lparr>detectionTimer := Some (clock e 0)\<rparr>
           in if clock e 1 - clock e 0 > 5000 then headtrackerStatus ''hints'' s1 else s1)
      | Some t \<Rightarrow> if clock e 0 - t > 5000 then headtrackerStatus ''hints'' s else s)"

text \<open>Lines 144-156: the face is lost.\<close>

definition lost :: "params \<Rightarrow> tracker \<Rightarrow> result" where
  "lost p s =
     (if retryDetection p then
        (let s1 = headtrackerStatus ''redetecting'' s;
             opts = \<lparr>whitebalancing = Some False, ft_debug = debug p,
                     ft_calcAngles = calcAngles p\<rparr>;
             s2 = call (NewFacetracker opts) (s1\<lparr>facetracker := Some opts\<rparr>)
         in case canvasElement s2 of
              None \<Rightarrow> Inl (ReferenceError, s2)
            | Some cv \<Rightarrow> Inr (s2\<lparr>faceFound := False, headposition := None\<rparr>))
      else Inr (snd (stop (headtrackerStatus ''lost'' s))))"

text \<open>Lines 158-161.\<close>

definition found_edge :: "tracker \<Rightarrow> tracker" where
  "found_edge s =
     (if \<not> faceFound s then (headtrackerStatus ''found'' s)\<lparr>faceFound := True\<rparr> else s)"

text \<open>
  Lines 163-169: returns the tracking object used from here on. Reading
  \<^verbatim>\<open>smoother.initialized\<close> of an undefined smoother throws.
\<close>

definition smooth_step ::
  "params \<Rightarrow> env \<Rightarrow> faceObj \<Rightarrow> tracker \<Rightarrow> (error \<times> tracker) + (faceObj \<times> tracker)" where
  "smooth_step p e f s =
     (if smoothing p then
        (case smoother s of
           None \<Rightarrow> Inl (TypeError, s)
         | Some sm \<Rightarrow>
             (let s1 = (if \<not> sm_initialized sm
                        then call (SmootherInit f) (s\<lparr>smoother := Some (smoother_init sm)\<rparr>)
                        else s)
              in Inr (smooth e f, s1)))
      else Inr (f, s))"

text \<open>Lines 190-201: the window is stable, build the pose estimator and feed it.\<close>

definition bootstrap :: "params \<Rightarrow> env \<Rightarrow> faceObj \<Rightarrow> tracker \<Rightarrow> result" where
  "bootstrap p e f s =
     (case canvasElement s of
        None \<Rightarrow> Inl (ReferenceError, s)
      | Some cv \<Rightarrow>
          (let s1 =
             (if firstRun s then
                (let h = \<lparr>hp_face = f, hp_width = canvas_width cv, hp_height = canvas_height cv,
                          hp_fov = params_fov p, hp_offset = cameraOffset p\<rparr>;
                     s' = call (NewHeadposition h) (s\<lparr>headposition := Some h\<rparr>);
                     s'' = call (HeadpositionGetFOV (hp_getFOV e h)) s'
                 in s''\<lparr>fov := hp_getFOV e h, firstRun := False\<rparr>)
              else
                (let h = \<lparr>hp_face = f, hp_width = canvas_width cv, hp_height = canvas_height cv,
                          hp_fov = Some (fov s), hp_offset = cameraOffset p\<rparr>
                 in call (NewHeadposition h) (s\<lparr>headposition := Some h\<rparr>)))
           in Inr (call (HeadpositionTrack f) s1)))"

text \<open>Lines 171-205.\<close>

definition head_position :: "params \<Rightarrow> env \<Rightarrow> faceObj \<Rightarrow> tracker \<Rightarrow> result" where
  "head_position p e f s =
     (if headposition s = None \<and> headPosition p then
        (let headdiag = sqrt64 (rounding e) (add64 (rounding e) (mul64 (rounding e) (width f) (width f))
                                                    (mul64 (rounding e) (height f) (height f)));
             r = push_diagonal (rounding e) headdiag (headDiagonal s);
             s1 = s\<lparr>headDiagonal := fst r\<rparr>
         in if snd r then bootstrap p e f s1 else Inr s1)
      else if headPosition p then Inr (call (HeadpositionTrack f) s)
      else Inr s)"

text \<open>Lines 125-207, without the debug drawing.\<close>

definition on_CS :: "params \<Rightarrow> env \<Rightarrow> faceObj \<Rightarrow> tracker \<Rightarrow> result" where
  "on_CS p e f s =
     (let s1 = s\<lparr>detectionTimer := None, status := ''tracking''\<rparr>
      in if width f = 0 \<or> height f = 0 then lost p s1
         else (case smooth_step p e f (found_edge s1) of
                 Inl x \<Rightarrow> Inl x
               | Inr (f', s2) \<Rightarrow> head_position p e f' s2))"

text \<open>Lines 210-212.\<close>

definition rearm :: "params \<Rightarrow> tracker \<Rightarrow> tracker" where
  "rearm p s =
     (if run s then
        (let r = setTimeout TrackCb (detectionInterval p) s
         in (snd r)\<lparr>detector := Some (fst r)\<rparr>)
      else s)"

definition track :: "params \<Rightarrow> env \<Rightarrow> tracker \<Rightarrow> result" where
  "track p e s =
     (case ensure_facetracker p s of
        Inl x \<Rightarrow> Inl x
      | Inr s1 \<Rightarrow>
          (let f = tracked e;
               s2 = announce f s1;
               r = (if \<not> (confidence f = 0) then
                      (if detection f = VJ then Inr (on_VJ e s2)
                       else if detection f = CS then on_CS p e f s2
                       else Inr s2)
                    else Inr s2)
           in case r of
                Inl x \<Rightarrow> Inl x
              | Inr s3 \<Rightarrow> Inr (rearm p s3)))"

subsection \<open>starter and start (lines 215-239)\<close>

text \<open>
  The \<^verbatim>\<open>catch\<close> of \<^verbatim>\<open>starter\<close> takes every throw of the probe and of the first
  \<^verbatim>\<open>track()\<close>, and tries again in 100 ms.
\<close>

definition starter :: "params \<Rightarrow> env \<Rightarrow> tracker \<Rightarrow> tracker" where
  "starter p e s =
     (case (if canvasElement s = None then None else whitebalance e) of
        None \<Rightarrow> snd (setTimeout StarterCb 100 s)
      | Some canvasContent \<Rightarrow>
          if canvasContent > 0 then
            (case track p e (s\<lparr>run := True\<rparr>) of
               Inr s' \<Rightarrow> s'
             | Inl (err, s') \<Rightarrow> snd (setTimeout StarterCb 100 s'))
          else snd (setTimeout StarterCb 100 s))"

definition start :: "params \<Rightarrow> env \<Rightarrow> tracker \<Rightarrow> bool \<times> tracker" where
  "start p e s = (if \<not> this_initialized s then (False, s) else (True, starter p e s))"

subsection \<open>Sessions: the calls a page and the browser's timers make\<close>

datatype api = Init canvas | Start env | Stop | Timeout nat env

text \<open>
  \<open>Timeout i e\<close> is the browser firing the pending timeout \<open>i\<close> (nothing happens when it
  is not pending). A throw inside a timer callback is reported by the browser and leaves
  the state as it was at the throw.
\<close>

fun exec :: "params \<Rightarrow> api \<Rightarrow> tracker \<Rightarrow> tracker" where
  "exec p (Init cv) s = init p cv s"
| "exec p (Start e) s = snd (start p e s)"
| "exec p Stop s = snd (stop s)"
| "exec p (Timeout i e) s =
     (case find (\<lambda>t. fst t = i) (timers s) of
        None \<Rightarrow> s
      | Some (j, cb, d) \<Rightarrow>
          (let s1 = s\<lparr>timers := filter (\<lambda>t. fst t \<noteq> i) (timers s)\<rparr>
           in case cb of
                TrackCb \<Rightarrow> state_of (track p e s1)
              | StarterCb \<Rightarrow> starter p e s1))"

fun execs :: "params \<Rightarrow> api list \<Rightarrow> tracker \<Rightarrow> tracker" where
  "execs p [] s = s"
| "execs p (c # cs) s = execs p cs (exec p c s)"

text \<open>Consecutive polls; a throw ends the polling.\<close>

fun tracks :: "params \<Rightarrow> env list \<Rightarrow> tracker \<Rightarrow> result" where
  "tracks p [] s = Inr s"
| "tracks p (e # es) s =
     (case track p e s of Inl x \<Rightarrow> Inl x | Inr s' \<Rightarrow> tracks p es s')"

subsection \<open>Predicates and inputs used in the statements\<close>

text \<open>What \<^verbatim>\<open>init\<close> establishes: the canvas and the smoother exist.\<close>

definition ready :: "tracker \<Rightarrow> bool" where
  "ready s \<longleftrightarrow> canvasElement s \<noteq> None \<and> smoother s \<noteq> None"

text \<open>
  The two kinds of fine-tracking result that \<^verbatim>\<open>track\<close> tells apart (lines 106, 125, 144):
  a valid lock, and a lost one.
\<close>

definition locked :: "faceObj \<Rightarrow> bool" where
  "locked f \<longleftrightarrow> confidence f \<noteq> 0 \<and> detection f = CS \<and> \<not> (width f = 0 \<or> height f = 0)"

definition lock_lost :: "faceObj \<Rightarrow> bool" where
  "lock_lost f \<longleftrightarrow> confidence f \<noteq> 0 \<and> detection f = CS \<and> (width f = 0 \<or> height f = 0)"

text \<open>
  The calibration invariant of a tracker: before the first bootstrap \<^verbatim>\<open>fov\<close> is still 0 and
  no pose estimator has been built; afterwards \<^verbatim>\<open>getFOV()\<close> has been asked once, \<^verbatim>\<open>fov\<close> holds
  its answer, the first estimator was built with \<^verbatim>\<open>params.fov\<close> and every later one with
  \<^verbatim>\<open>fov\<close>.
\<close>

definition calibrated :: "params \<Rightarrow> tracker \<Rightarrow> bool" where
  "calibrated p s \<longleftrightarrow>
     (if firstRun s then fov s = 0 \<and> constructed (out s) = [] \<and> calibrations (out s) = []
      else calibrations (out s) = [fov s] \<and>
           (case constructed (out s) of
              [] \<Rightarrow> False
            | h # hs \<Rightarrow> hp_fov h = params_fov p \<and> list_all (\<lambda>h'. hp_fov h' = Some (fov s)) hs))"

text \<open>What the calibration and the window depend on.\<close>

definition core ::
  "tracker \<Rightarrow> real \<times> bool \<times> number list \<times> headposition_args list \<times> real list" where
  "core s = (fov s, firstRun s, headDiagonal s, constructed (out s), calibrations (out s))"

text \<open>The defaults of the constructor (lines 37-52), with no \<^verbatim>\<open>fov\<close> given.\<close>

definition default_params :: params where
  "default_params =
     \<lparr>smoothing = True, retryDetection = True, ui = True, debug = False,
      detectionInterval = 20, cameraOffset = 11.5, calcAngles = False, headPosition = True,
      params_fov = None\<rparr>"

definition canvas0 :: canvas where
  "canvas0 = \<lparr>canvas_width = 320, canvas_height = 240\<rparr>"

text \<open>
  The rounding of the examples: an integer of magnitude up to \<open>2 ^ 53\<close> is a double, so
  binary64 rounding returns it unchanged. The examples produce no other exact results;
  NaN stands for the roundings that are not given here.
\<close>

definition round_integers :: "real \<Rightarrow> number" where
  "round_integers r =
     (if real_of_int \<lfloor>r\<rfloor> = r \<and> \<bar>r\<bar> \<le> 9007199254740992 then Fin r else NaN)"

text \<open>
  A tick's environment: a tracking object with the given tag, confidence, width and
  height; a clock standing at 0; a smoother that returns its input; a pose estimator
  that reports 30 degrees; a whitebalance probe that reads 1; the rounding above.
\<close>

definition frame :: "mode \<Rightarrow> real \<Rightarrow> real \<Rightarrow> real \<Rightarrow> env" where
  "frame m c w h =
     \<lparr>tracked = \<lparr>detection = m, confidence = c, face_x = 0, face_y = 0,
                  width = w, height = h, angle = 0\<rparr>,
      clock = (\<lambda>n. 0), smooth = (\<lambda>f. f), hp_getFOV = (\<lambda>h. 30), whitebalance = Some 1,
      rounding = round_integers\<rparr>"

text \<open>
  A session of seven polls that each return the same valid fine-tracking result (width
  3, height 4, diagonal 5): \<^verbatim>\<open>start\<close> makes the first poll, the timeouts 0 to 5 the others.
\<close>

definition steady_session :: "api list" where
  "steady_session =
     [Init canvas0, Start (frame CS 1 3 4), Timeout 0 (frame CS 1 3 4),
      Timeout 1 (frame CS 1 3 4), Timeout 2 (frame CS 1 3 4), Timeout 3 (frame CS 1 3 4),
      Timeout 4 (frame CS 1 3 4), Timeout 5 (frame CS 1 3 4)]"

section \<open>Lemmas\<close>

subsection \<open>Composition: what every step preserves\<close>

lemmas basic_defs = headtrackerStatus_def call_def setTimeout_def clearTimeout_def

text \<open>For evaluating the model on concrete inputs.\<close>

lemmas run_defs = track_def ensure_facetracker_def announce_def on_VJ_def on_CS_def lost_def
  found_edge_def smooth_step_def head_position_def bootstrap_def rearm_def stop_def
  start_def starter_def init_def push_diagonal_def new_Smoother_def smoother_init_def
  mul64_def Math_max_def Math_min_def
  headtrackerStatus_def call_def setTimeout_def clearTimeout_def Let_def

lemmas input_defs = frame_def default_params_def canvas0_def Tracker_def steady_session_def
  round_integers_def

lemma sqrt_25: "sqrt 25 = 5"
  by (rule real_sqrt_unique) simp_all

lemma dispatched_append [simp]: "dispatched (xs @ ys) = dispatched xs @ dispatched ys"
  by (induction xs rule: dispatched.induct) simp_all

lemma constructed_append [simp]: "constructed (xs @ ys) = constructed xs @ constructed ys"
  by (induction xs rule: constructed.induct) simp_all

lemma calibrations_append [simp]: "calibrations (xs @ ys) = calibrations xs @ calibrations ys"
  by (induction xs rule: calibrations.induct) simp_all

lemma smoother_inits_append [simp]:
  "smoother_inits (xs @ ys) = smoother_inits xs @ smoother_inits ys"
  by (induction xs rule: smoother_inits.induct) simp_all

lemma smooth_step_Inl: "smooth_step p e f s = Inl (er, s') \<Longrightarrow> s' = s"
  by (auto simp: smooth_step_def Let_def split: if_splits option.splits)

lemma on_CS_preserves:
  assumes s: "P s"
    and upd: "\<And>s. P s \<Longrightarrow> P (s\<lparr>detectionTimer := None, status := ''tracking''\<rparr>)"
    and lost: "\<And>s. width f = 0 \<or> height f = 0 \<Longrightarrow> P s \<Longrightarrow> P (state_of (lost p s))"
    and found: "\<And>s. width f \<noteq> 0 \<Longrightarrow> height f \<noteq> 0 \<Longrightarrow> P s \<Longrightarrow> P (found_edge s)"
    and smooth: "\<And>s f' s'. P s \<Longrightarrow> smooth_step p e f s = Inr (f', s') \<Longrightarrow> P s'"
    and hp: "\<And>s f'. P s \<Longrightarrow> P (state_of (head_position p e f' s))"
  shows "P (state_of (on_CS p e f s))"
proof -
  let ?s1 = "s\<lparr>detectionTimer := None, status := ''tracking''\<rparr>"
  have s1: "P ?s1" using s by (rule upd)
  show ?thesis
  proof (cases "width f = 0 \<or> height f = 0")
    case True
    then have "on_CS p e f s = lost p ?s1" by (simp add: on_CS_def)
    with lost[OF True s1] show ?thesis by simp
  next
    case False
    then have w: "width f \<noteq> 0" and h: "height f \<noteq> 0" by simp_all
    have fe: "P (found_edge ?s1)" using found[OF w h s1] .
    show ?thesis
    proof (cases "smooth_step p e f (found_edge ?s1)")
      case (Inl x)
      obtain er s' where x: "x = (er, s')" by (cases x)
      with Inl smooth_step_Inl have "s' = found_edge ?s1" by blast
      with Inl x False fe show ?thesis by (simp add: on_CS_def)
    next
      case (Inr y)
      obtain f' s2 where y: "y = (f', s2)" by (cases y)
      from smooth[OF fe] Inr y have "P s2" by simp
      then have "P (state_of (head_position p e f' s2))" by (rule hp)
      with Inr y False show ?thesis by (simp add: on_CS_def)
    qed
  qed
qed

lemma track_preserves:
  assumes s: "P s"
    and ens: "\<And>s. P s \<Longrightarrow> P (state_of (ensure_facetracker p s))"
    and ann: "\<And>s. P s \<Longrightarrow> P (announce (tracked e) s)"
    and vj: "\<And>s. confidence (tracked e) \<noteq> 0 \<Longrightarrow> detection (tracked e) = VJ \<Longrightarrow> P s \<Longrightarrow> P (on_VJ e s)"
    and cs: "\<And>s. confidence (tracked e) \<noteq> 0 \<Longrightarrow> detection (tracked e) = CS \<Longrightarrow> P s
               \<Longrightarrow> P (state_of (on_CS p e (tracked e) s))"
    and re: "\<And>s. P s \<Longrightarrow> P (rearm p s)"
  shows "P (state_of (track p e s))"
proof (cases "ensure_facetracker p s")
  case (Inl x)
  with ens[OF s] show ?thesis by (simp add: track_def)
next
  case (Inr s1)
  with ens[OF s] have "P s1" by simp
  then have s2: "P (announce (tracked e) s1)" by (rule ann)
  let ?s2 = "announce (tracked e) s1"
  let ?r = "(if \<not> (confidence (tracked e) = 0) then
                      (if detection (tracked e) = VJ then Inr (on_VJ e ?s2)
                       else if detection (tracked e) = CS then on_CS p e (tracked e) ?s2
                       else Inr ?s2)
                    else Inr ?s2)"
  have r: "P (state_of ?r)" using s2 vj[OF _ _ s2] cs[OF _ _ s2] by simp
  have t: "track p e s = (case ?r of Inl x \<Rightarrow> Inl x | Inr s3 \<Rightarrow> Inr (rearm p s3))"
    using Inr by (simp add: track_def Let_def)
  show ?thesis
  proof (cases ?r)
    case (Inl x)
    with r t show ?thesis by simp
  next
    case (Inr s3)
    with r have "P s3" by simp
    then have "P (rearm p s3)" by (rule re)
    with Inr t show ?thesis by simp
  qed
qed

lemma starter_preserves:
  assumes s: "P s"
    and run: "\<And>s. P s \<Longrightarrow> P (s\<lparr>run := True\<rparr>)"
    and st: "\<And>s cb d. P s \<Longrightarrow> P (snd (setTimeout cb d s))"
    and tr: "\<And>s. P s \<Longrightarrow> P (state_of (track p e s))"
  shows "P (starter p e s)"
proof -
  have a: "P (snd (setTimeout StarterCb 100 s))" using s by (rule st)
  have b: "P (state_of (track p e (s\<lparr>run := True\<rparr>)))" using s by (intro tr run)
  then have c: "P (snd (setTimeout StarterCb 100 (state_of (track p e (s\<lparr>run := True\<rparr>)))))"
    by (rule st)
  have d: "(case track p e (s\<lparr>run := True\<rparr>) of
               Inr s' \<Rightarrow> s'
             | Inl (err, s') \<Rightarrow> snd (setTimeout StarterCb 100 s'))
           = (if isl (track p e (s\<lparr>run := True\<rparr>))
              then snd (setTimeout StarterCb 100 (state_of (track p e (s\<lparr>run := True\<rparr>))))
              else state_of (track p e (s\<lparr>run := True\<rparr>)))"
    by (cases "track p e (s\<lparr>run := True\<rparr>)") auto
  show ?thesis
    unfolding starter_def d using a b c by (simp split: option.splits)
qed

lemma exec_preserves:
  assumes s: "P s"
    and init: "\<And>s cv. P s \<Longrightarrow> P (init p cv s)"
    and stop: "\<And>s. P s \<Longrightarrow> P (snd (stop s))"
    and run: "\<And>s. P s \<Longrightarrow> P (s\<lparr>run := True\<rparr>)"
    and st: "\<And>s cb d. P s \<Longrightarrow> P (snd (setTimeout cb d s))"
    and fire: "\<And>s i. P s \<Longrightarrow> P (s\<lparr>timers := filter (\<lambda>t. fst t \<noteq> i) (timers s)\<rparr>)"
    and tr: "\<And>s e. P s \<Longrightarrow> P (state_of (track p e s))"
  shows "P (exec p c s)"
proof (cases c)
  case (Init cv)
  with init[OF s] show ?thesis by simp
next
  case (Start e)
  have "P (starter p e s)" using s run st tr by (rule starter_preserves)
  with s Start show ?thesis by (simp add: start_def)
next
  case Stop
  with stop[OF s] show ?thesis by simp
next
  case (Timeout i e)
  let ?s1 = "s\<lparr>timers := filter (\<lambda>t. fst t \<noteq> i) (timers s)\<rparr>"
  have s1: "P ?s1" using s by (rule fire)
  have a: "P (state_of (track p e ?s1))" using s1 by (rule tr)
  have b: "P (starter p e ?s1)" using s1 run st tr by (rule starter_preserves)
  show ?thesis using Timeout s a b
    by (simp add: Let_def split: option.splits prod.splits callback.splits)
qed

lemma execs_preserves:
  assumes s: "P s"
    and init: "\<And>s cv. P s \<Longrightarrow> P (init p cv s)"
    and stop: "\<And>s. P s \<Longrightarrow> P (snd (stop s))"
    and run: "\<And>s. P s \<Longrightarrow> P (s\<lparr>run := True\<rparr>)"
    and st: "\<And>s cb d. P s \<Longrightarrow> P (snd (setTimeout cb d s))"
    and fire: "\<And>s i. P s \<Longrightarrow> P (s\<lparr>timers := filter (\<lambda>t. fst t \<noteq> i) (timers s)\<rparr>)"
    and tr: "\<And>s e. P s \<Longrightarrow> P (state_of (track p e s))"
  shows "P (execs p cs s)"
  using s
proof (induction cs arbitrary: s)
  case Nil
  then show ?case by simp
next
  case (Cons c cs)
  have "P (exec p c s)" using Cons.prems init stop run st fire tr by (rule exec_preserves)
  then show ?case using Cons.IH by simp
qed

lemma core_ensure: "core (state_of (ensure_facetracker p s)) = core s"
  by (simp add: core_def ensure_facetracker_def basic_defs Let_def split: option.splits)

lemma core_announce: "core (announce f s) = core s"
  by (simp add: core_def announce_def basic_defs Let_def)

lemma core_on_VJ: "core (on_VJ e s) = core s"
  by (simp add: core_def on_VJ_def basic_defs Let_def split: option.splits)

lemma core_rearm: "core (rearm p s) = core s"
  by (simp add: core_def rearm_def basic_defs Let_def)

lemma core_stop: "core (snd (stop s)) = core s"
  by (simp add: core_def stop_def basic_defs Let_def split: option.splits)

lemma core_lost: "core (state_of (lost p s)) = core s"
  by (simp add: core_def lost_def stop_def basic_defs Let_def split: option.splits)

lemma core_found_edge: "core (found_edge s) = core s"
  by (simp add: core_def found_edge_def basic_defs)

lemma core_smooth_step: "smooth_step p e f s = Inr (f', s') \<Longrightarrow> core s' = core s"
  by (auto simp add: core_def smooth_step_def basic_defs Let_def split: if_splits option.splits)

lemma core_init: "core (init p cv s) = core s"
  by (simp add: core_def init_def basic_defs Let_def)

lemma core_setTimeout: "core (snd (setTimeout cb d s)) = core s"
  by (simp add: core_def basic_defs)

lemma core_track:
  assumes s: "Q (core s)"
    and hp: "\<And>s f. Q (core s) \<Longrightarrow> Q (core (state_of (head_position p e f s)))"
  shows "Q (core (state_of (track p e s)))"
proof (rule track_preserves[where P = "\<lambda>s. Q (core s)"])
  show "Q (core s)" by (rule s)
next
  fix s assume "Q (core s)"
  then show "Q (core (state_of (ensure_facetracker p s)))" by (simp add: core_ensure)
next
  fix s assume "Q (core s)"
  then show "Q (core (announce (tracked e) s))" by (simp add: core_announce)
next
  fix s assume "Q (core s)"
  then show "Q (core (on_VJ e s))" by (simp add: core_on_VJ)
next
  fix s assume "Q (core s)"
  then show "Q (core (rearm p s))" by (simp add: core_rearm)
next
  fix s assume q: "Q (core s)"
  show "Q (core (state_of (on_CS p e (tracked e) s)))"
  proof (rule on_CS_preserves[where P = "\<lambda>s. Q (core s)"])
    show "Q (core s)" by (rule q)
  next
    fix s assume "Q (core s)"
    then show "Q (core (s\<lparr>detectionTimer := None, status := ''tracking''\<rparr>))"
      by (simp add: core_def)
  next
    fix s assume "Q (core s)"
    then show "Q (core (state_of (lost p s)))" by (simp add: core_lost)
  next
    fix s assume "Q (core s)"
    then show "Q (core (found_edge s))" by (simp add: core_found_edge)
  next
    fix s f' s' assume "Q (core s)" "smooth_step p e (tracked e) s = Inr (f', s')"
    then show "Q (core s')" by (simp add: core_smooth_step)
  next
    fix s f' assume "Q (core s)"
    then show "Q (core (state_of (head_position p e f' s)))" by (rule hp)
  qed
qed

lemma core_execs:
  assumes s: "Q (core s)"
    and hp: "\<And>s e f. Q (core s) \<Longrightarrow> Q (core (state_of (head_position p e f s)))"
  shows "Q (core (execs p cs s))"
proof (rule execs_preserves[where P = "\<lambda>s. Q (core s)"])
  show "Q (core s)" by (rule s)
next
  fix s cv assume "Q (core s)"
  then show "Q (core (init p cv s))" by (simp add: core_init)
next
  fix s assume "Q (core s)"
  then show "Q (core (snd (stop s)))" by (simp add: core_stop)
next
  fix s assume "Q (core s)"
  then show "Q (core (s\<lparr>run := True\<rparr>))" by (simp add: core_def)
next
  fix s cb d assume "Q (core s)"
  then show "Q (core (snd (setTimeout cb d s)))" by (simp add: core_setTimeout)
next
  fix s i assume "Q (core s)"
  then show "Q (core (s\<lparr>timers := filter (\<lambda>t. fst t \<noteq> i) (timers s)\<rparr>))"
    by (simp add: core_def)
next
  fix s e assume "Q (core s)"
  then show "Q (core (state_of (track p e s)))" using hp by (rule core_track)
qed

subsection \<open>An initialised tracker does not throw\<close>

lemma ready_ensure: "ready s \<Longrightarrow> \<exists>s1. ensure_facetracker p s = Inr s1 \<and> ready s1"
  by (auto simp: ready_def ensure_facetracker_def basic_defs Let_def)

lemma ready_announce: "ready (announce f s) = ready s"
  by (simp add: ready_def announce_def basic_defs Let_def)

lemma ready_on_VJ: "ready (on_VJ e s) = ready s"
  by (simp add: ready_def on_VJ_def basic_defs Let_def split: option.splits)

lemma ready_rearm: "ready (rearm p s) = ready s"
  by (simp add: ready_def rearm_def basic_defs Let_def)

lemma ready_lost: "ready s \<Longrightarrow> \<exists>s'. lost p s = Inr s' \<and> ready s'"
  by (auto simp: ready_def lost_def stop_def basic_defs Let_def split: option.splits)

lemma ready_found_edge: "ready (found_edge s) = ready s"
  by (simp add: ready_def found_edge_def basic_defs)

lemma ready_smooth_step: "ready s \<Longrightarrow> \<exists>f' s'. smooth_step p e f s = Inr (f', s') \<and> ready s'"
  by (auto simp: ready_def smooth_step_def basic_defs Let_def)

lemma ready_head_position: "ready s \<Longrightarrow> \<exists>s'. head_position p e f s = Inr s' \<and> ready s'"
  by (auto simp: ready_def head_position_def bootstrap_def basic_defs Let_def)

lemma ready_on_CS:
  assumes "ready s"
  shows "\<exists>s'. on_CS p e f s = Inr s' \<and> ready s'"
proof -
  let ?s1 = "s\<lparr>detectionTimer := None, status := ''tracking''\<rparr>"
  have s1: "ready ?s1" using assms by (simp add: ready_def)
  show ?thesis
  proof (cases "width f = 0 \<or> height f = 0")
    case True
    with ready_lost[OF s1, of p] show ?thesis by (simp add: on_CS_def)
  next
    case False
    have "ready (found_edge ?s1)" using s1 by (simp add: ready_found_edge)
    from ready_smooth_step[OF this, of p e f]
    obtain f' s2 where s2: "smooth_step p e f (found_edge ?s1) = Inr (f', s2)" "ready s2"
      by blast
    from ready_head_position[OF s2(2), of p e f'] s2(1) False
    show ?thesis by (simp add: on_CS_def)
  qed
qed

lemma ready_track:
  assumes "ready s"
  shows "\<exists>s'. track p e s = Inr s' \<and> ready s'"
proof -
  from ready_ensure[OF assms, of p]
  obtain s1 where s1: "ensure_facetracker p s = Inr s1" "ready s1" by blast
  let ?s2 = "announce (tracked e) s1"
  have s2: "ready ?s2" using s1(2) by (simp add: ready_announce)
  from ready_on_CS[OF s2, of p e "tracked e"]
  obtain s3 where s3: "on_CS p e (tracked e) ?s2 = Inr s3" "ready s3" by blast
  show ?thesis using s1 s2 s3
    by (simp add: track_def Let_def ready_rearm ready_on_VJ)
qed

lemma track_rearmed:
  assumes "track p e s = Inr s'" and "run s'"
  shows "\<exists>i. detector s' = Some i \<and> (i, TrackCb, detectionInterval p) \<in> set (timers s')"
proof -
  from assms(1) obtain s3 where s3: "s' = rearm p s3"
    by (auto simp: track_def Let_def split: sum.splits if_splits)
  with assms(2) have "run s3" by (simp add: rearm_def basic_defs Let_def split: if_splits)
  with s3 show ?thesis by (simp add: rearm_def basic_defs Let_def)
qed

subsection \<open>Invariants that only the bootstrap can touch\<close>

lemma core_determined_execs:
  assumes det: "\<And>s s'. core s = core s' \<Longrightarrow> P s \<Longrightarrow> P s'"
    and s: "P s"
    and hp: "\<And>s e f. P s \<Longrightarrow> P (state_of (head_position p e f s))"
  shows "P (execs p cs s)"
proof -
  let ?Q = "\<lambda>c. \<exists>s0. core s0 = c \<and> P s0"
  have "?Q (core (execs p cs s))"
  proof (rule core_execs[where Q = ?Q])
    show "?Q (core s)" using s by blast
  next
    fix s e f assume "?Q (core s)"
    then have "P s" using det by blast
    then have "P (state_of (head_position p e f s))" by (rule hp)
    then show "?Q (core (state_of (head_position p e f s)))" by blast
  qed
  then show ?thesis using det by blast
qed

lemma calibrated_head_position:
  "calibrated p s \<Longrightarrow> calibrated p (state_of (head_position p e f s))"
  by (auto simp: calibrated_def head_position_def bootstrap_def basic_defs Let_def
      split: option.splits list.splits if_splits)

lemma calibrated_execs: "calibrated p (execs p cs Tracker)"
proof (rule core_determined_execs)
  show "calibrated p Tracker" by (simp add: calibrated_def Tracker_def)
next
  fix s s' :: tracker assume "core s = core s'" "calibrated p s"
  then show "calibrated p s'" by (auto simp: core_def calibrated_def split: list.splits)
next
  fix s e f assume "calibrated p s"
  then show "calibrated p (state_of (head_position p e f s))" by (rule calibrated_head_position)
qed

lemma fov_kept_head_position:
  "\<not> firstRun s \<and> fov s = v \<Longrightarrow>
   \<not> firstRun (state_of (head_position p e f s)) \<and> fov (state_of (head_position p e f s)) = v"
  by (auto simp: head_position_def bootstrap_def basic_defs Let_def split: option.splits)

lemma fov_kept_execs:
  assumes "\<not> firstRun s"
  shows "\<not> firstRun (execs p cs s) \<and> fov (execs p cs s) = fov s"
proof (rule core_determined_execs[where P = "\<lambda>s'. \<not> firstRun s' \<and> fov s' = fov s"])
  show "\<not> firstRun s \<and> fov s = fov s" using assms by simp
next
  fix a b :: tracker assume "core a = core b" "\<not> firstRun a \<and> fov a = fov s"
  then show "\<not> firstRun b \<and> fov b = fov s" by (simp add: core_def)
next
  fix a :: tracker and e f assume "\<not> firstRun a \<and> fov a = fov s"
  then show "\<not> firstRun (state_of (head_position p e f a)) \<and>
             fov (state_of (head_position p e f a)) = fov s"
    by (rule fov_kept_head_position)
qed

lemma push_diagonal_length: "length w \<le> length (fst (push_diagonal r d w))"
  by (auto simp: push_diagonal_def Let_def)

lemma window_head_position:
  "n \<le> length (headDiagonal s) \<Longrightarrow> n \<le> length (headDiagonal (state_of (head_position p e f s)))"
  using push_diagonal_length[of "headDiagonal s" "rounding e"
      "sqrt64 (rounding e) (add64 (rounding e) (mul64 (rounding e) (width f) (width f))
                             (mul64 (rounding e) (height f) (height f)))"]
  by (auto simp: head_position_def bootstrap_def basic_defs Let_def split: option.splits)

lemma window_execs: "length (headDiagonal s) \<le> length (headDiagonal (execs p cs s))"
proof (rule core_determined_execs[where P = "\<lambda>s'. length (headDiagonal s) \<le> length (headDiagonal s')"])
  show "length (headDiagonal s) \<le> length (headDiagonal s)" by simp
next
  fix a b :: tracker
  assume "core a = core b" "length (headDiagonal s) \<le> length (headDiagonal a)"
  then show "length (headDiagonal s) \<le> length (headDiagonal b)" by (simp add: core_def)
next
  fix a :: tracker and e f assume "length (headDiagonal s) \<le> length (headDiagonal a)"
  then show "length (headDiagonal s) \<le> length (headDiagonal (state_of (head_position p e f a)))"
    by (rule window_head_position)
qed

lemma on_CS_lost:
  "width f = 0 \<or> height f = 0 \<Longrightarrow>
   on_CS p e f s = lost p (s\<lparr>detectionTimer := None, status := ''tracking''\<rparr>)"
  by (simp add: on_CS_def)

lemma window_lost_frame:
  assumes m: "detection (tracked e) = CS"
    and w: "width (tracked e) = 0 \<or> height (tracked e) = 0"
  shows "headDiagonal (state_of (track p e s)) = headDiagonal s"
proof (rule track_preserves[where P = "\<lambda>s'. headDiagonal s' = headDiagonal s"])
  show "headDiagonal s = headDiagonal s" by simp
next
  fix a :: tracker assume "headDiagonal a = headDiagonal s"
  then show "headDiagonal (state_of (ensure_facetracker p a)) = headDiagonal s"
    using core_ensure[of p a] by (simp add: core_def)
next
  fix a :: tracker assume "headDiagonal a = headDiagonal s"
  then show "headDiagonal (announce (tracked e) a) = headDiagonal s"
    using core_announce[of "tracked e" a] by (simp add: core_def)
next
  fix a :: tracker assume "detection (tracked e) = VJ"
  with m show "headDiagonal (on_VJ e a) = headDiagonal s" by simp
next
  fix a :: tracker assume "headDiagonal a = headDiagonal s"
  then show "headDiagonal (state_of (on_CS p e (tracked e) a)) = headDiagonal s"
    using core_lost[of p "a\<lparr>detectionTimer := None, status := ''tracking''\<rparr>"]
    by (simp add: on_CS_lost[OF w] core_def)
next
  fix a :: tracker assume "headDiagonal a = headDiagonal s"
  then show "headDiagonal (rearm p a) = headDiagonal s"
    using core_rearm[of p a] by (simp add: core_def)
qed

subsection \<open>The stability window\<close>

lemma fold_max64_Fin: "fold max64 (map Fin rs) (Fin a) = Fin (fold max rs a)"
  by (induction rs arbitrary: a) simp_all

lemma fold_min64_Fin: "fold min64 (map Fin rs) (Fin a) = Fin (fold min rs a)"
  by (induction rs arbitrary: a) simp_all

lemma Math_max_Fin: "Math_max (map Fin (a # rs)) = Fin (Max (set (a # rs)))"
  by (simp add: Math_max_def fold_max64_Fin Max.set_eq_fold del: Max_insert set_simps)

lemma Math_min_Fin: "Math_min (map Fin (a # rs)) = Fin (Min (set (a # rs)))"
  by (simp add: Math_min_def fold_min64_Fin Min.set_eq_fold del: Min_insert set_simps)

lemma push_diagonal_window:
  "length w \<le> 6 \<Longrightarrow> fst (push_diagonal rnd d w) = drop (length w + 1 - 6) (w @ [d])"
  by (cases w) (auto simp: push_diagonal_def Let_def)

lemma push_diagonal_stable:
  "snd (push_diagonal rnd d w) \<longleftrightarrow>
     6 \<le> length w \<and>
     less64 (sub64 rnd (Math_max (fst (push_diagonal rnd d w)))
                       (Math_min (fst (push_diagonal rnd d w)))) 5"
  by (cases "length w < 6") (simp_all add: push_diagonal_def Let_def)

lemma pushes_window:
  "foldl (\<lambda>w d. fst (push_diagonal rnd d w)) [] ds = drop (length ds - 6) ds"
proof (induction ds rule: rev_induct)
  case Nil
  then show ?case by simp
next
  case (snoc d ds)
  let ?w = "drop (length ds - 6) ds"
  have len: "length ?w \<le> 6" by simp
  have "fst (push_diagonal rnd d ?w) = drop (length ?w + 1 - 6) (?w @ [d])"
    using len by (rule push_diagonal_window)
  also have "\<dots> = drop (length (ds @ [d]) - 6) (ds @ [d])"
  proof (cases "length ds < 6")
    case True
    then show ?thesis by simp
  next
    case False
    then have "Suc (length ds - 6) = length ds - 5" by arith
    with False show ?thesis by simp
  qed
  finally show ?case using snoc.IH by simp
qed

lemma pushes_stable:
  "snd (push_diagonal rnd d (foldl (\<lambda>w d. fst (push_diagonal rnd d w)) [] ds)) \<longleftrightarrow>
     6 \<le> length ds \<and>
     less64 (sub64 rnd (Math_max (drop (length (ds @ [d]) - 6) (ds @ [d])))
                       (Math_min (drop (length (ds @ [d]) - 6) (ds @ [d])))) 5"
proof -
  let ?w = "foldl (\<lambda>w d. fst (push_diagonal rnd d w)) [] ds"
  have w: "?w = drop (length ds - 6) ds" by (rule pushes_window)
  have "fst (push_diagonal rnd d ?w) = foldl (\<lambda>w d. fst (push_diagonal rnd d w)) [] (ds @ [d])"
    by simp
  also have "\<dots> = drop (length (ds @ [d]) - 6) (ds @ [d])" by (rule pushes_window)
  finally have a: "fst (push_diagonal rnd d ?w) = drop (length (ds @ [d]) - 6) (ds @ [d])" .
  have "6 \<le> length ?w \<longleftrightarrow> 6 \<le> length ds" unfolding w by auto
  with push_diagonal_stable[of rnd d ?w] a show ?thesis by simp
qed

subsection \<open>Results with confidence 0\<close>

lemma track_no_detection:
  assumes c: "confidence (tracked e) = 0"
    and f: "facetracker s \<noteq> None \<or> canvasElement s \<noteq> None"
  shows "\<exists>s'. track p e s = Inr s' \<and> facetracker s' \<noteq> None \<and>
           run s' = run s \<and> detectionTimer s' = detectionTimer s \<and>
           faceFound s' = faceFound s \<and> headposition s' = headposition s \<and>
           headDiagonal s' = headDiagonal s \<and> fov s' = fov s \<and> firstRun s' = firstRun s \<and>
           smoother s' = smoother s \<and>
           dispatched (out s') = dispatched (out s) @
             (if detection (tracked e) = WB then [''whitebalance'']
              else if detection (tracked e) = VJ \<and> firstRun s then [''detecting'']
              else []) \<and>
           status s' =
             (if detection (tracked e) = WB then ''whitebalance''
              else if detection (tracked e) = VJ \<and> firstRun s then ''detecting''
              else status s)"
proof (cases "facetracker s")
  case None
  with f obtain cv where "canvasElement s = Some cv" by auto
  with None c show ?thesis
    by (simp add: track_def ensure_facetracker_def announce_def rearm_def basic_defs Let_def)
next
  case (Some a)
  with c show ?thesis
    by (simp add: track_def ensure_facetracker_def announce_def rearm_def basic_defs Let_def)
qed

subsection \<open>The poll of a valid lock, step by step\<close>

lemma announce_CS: "detection f = CS \<Longrightarrow> announce f s = s"
  by (simp add: announce_def Let_def)

lemma track_locked:
  assumes r: "ready s"
    and m: "detection (tracked e) = CS" and c: "confidence (tracked e) \<noteq> 0"
    and w: "width (tracked e) \<noteq> 0" and h: "height (tracked e) \<noteq> 0"
  shows "\<exists>s1 f' s3 s4.
           ensure_facetracker p s = Inr s1 \<and> ready s1 \<and>
           smooth_step p e (tracked e)
             (found_edge (s1\<lparr>detectionTimer := None, status := ''tracking''\<rparr>)) = Inr (f', s3) \<and>
           ready s3 \<and>
           head_position p e f' s3 = Inr s4 \<and> ready s4 \<and>
           track p e s = Inr (rearm p s4)"
proof -
  from ready_ensure[OF r, of p]
  obtain s1 where s1: "ensure_facetracker p s = Inr s1" "ready s1" by blast
  let ?s2 = "found_edge (s1\<lparr>detectionTimer := None, status := ''tracking''\<rparr>)"
  have "ready ?s2" using s1(2) by (simp add: ready_found_edge) (simp add: ready_def)
  from ready_smooth_step[OF this, of p e "tracked e"]
  obtain f' s3 where s3: "smooth_step p e (tracked e) ?s2 = Inr (f', s3)" "ready s3" by blast
  from ready_head_position[OF s3(2), of p e f']
  obtain s4 where s4: "head_position p e f' s3 = Inr s4" "ready s4" by blast
  have "track p e s = Inr (rearm p s4)"
    using s1(1) s3(1) s4(1) m c w h
    by (simp add: track_def Let_def announce_CS on_CS_def)
  with s1 s3 s4 show ?thesis by blast
qed

subsection \<open>What leaves the lock and the "found" events alone\<close>










lemma track_lock_lost:
  assumes l: "lock_lost (tracked e)" and cv: "canvasElement s \<noteq> None"
  shows "\<exists>s'. track p e s = Inr s' \<and> \<not> faceFound s' \<and>
           canvasElement s' = canvasElement s \<and> smoother s' = smoother s \<and>
           smoother_inits (out s') = smoother_inits (out s) \<and>
           count_list (dispatched (out s')) ''found'' = count_list (dispatched (out s)) ''found'' \<and>
           (retryDetection p \<longrightarrow> headposition s' = None)"
proof -
  from cv obtain cvs where cvs: "canvasElement s = Some cvs" by auto
  from l have m: "detection (tracked e) = CS" and c: "confidence (tracked e) \<noteq> 0"
    and w: "width (tracked e) = 0 \<or> height (tracked e) = 0"
    by (simp_all add: lock_lost_def)
  show ?thesis
  proof (cases "facetracker s")
    case None
    with m c w cvs show ?thesis
      by (cases "retryDetection p")
        (simp_all add: track_def ensure_facetracker_def announce_def on_CS_def lost_def stop_def
          rearm_def basic_defs Let_def split: option.splits)
  next
    case (Some a)
    with m c w cvs show ?thesis
      by (cases "retryDetection p")
        (simp_all add: track_def ensure_facetracker_def announce_def on_CS_def lost_def stop_def
          rearm_def basic_defs Let_def split: option.splits)
  qed
qed



subsection \<open>What leaves the smoother alone\<close>

lemma smoother_ensure:
  "smoother (state_of (ensure_facetracker p s)) = smoother s \<and>
   smoother_inits (out (state_of (ensure_facetracker p s))) = smoother_inits (out s)"
  by (simp add: ensure_facetracker_def basic_defs Let_def split: option.splits)

lemma smoother_announce:
  "smoother (announce f s) = smoother s \<and>
   smoother_inits (out (announce f s)) = smoother_inits (out s)"
  by (simp add: announce_def basic_defs Let_def)

lemma smoother_on_VJ:
  "smoother (on_VJ e s) = smoother s \<and> smoother_inits (out (on_VJ e s)) = smoother_inits (out s)"
  by (simp add: on_VJ_def basic_defs Let_def split: option.splits)

lemma smoother_rearm:
  "smoother (rearm p s) = smoother s \<and> smoother_inits (out (rearm p s)) = smoother_inits (out s)"
  by (simp add: rearm_def basic_defs Let_def)

lemma smoother_lost:
  "smoother (state_of (lost p s)) = smoother s \<and>
   smoother_inits (out (state_of (lost p s))) = smoother_inits (out s)"
  by (simp add: lost_def stop_def basic_defs Let_def split: option.splits)

lemma smoother_found_edge:
  "smoother (found_edge s) = smoother s \<and>
   smoother_inits (out (found_edge s)) = smoother_inits (out s)"
  by (simp add: found_edge_def basic_defs)

lemma smoother_head_position:
  "smoother (state_of (head_position p e f s)) = smoother s \<and>
   smoother_inits (out (state_of (head_position p e f s))) = smoother_inits (out s)"
  by (simp add: head_position_def bootstrap_def basic_defs Let_def split: option.splits)

lemma smoother_smooth_step_primed:
  "smoother s = Some sm \<Longrightarrow> sm_initialized sm \<Longrightarrow> smooth_step p e f s = Inr (f', s') \<Longrightarrow>
   smoother s' = smoother s \<and> smoother_inits (out s') = smoother_inits (out s)"
  by (auto simp: smooth_step_def basic_defs Let_def split: if_splits)

lemma smoother_smooth_step_first:
  "smoothing p \<Longrightarrow> smoother s = Some sm \<Longrightarrow> \<not> sm_initialized sm \<Longrightarrow>
   smooth_step p e f s = Inr (f', s') \<Longrightarrow>
   smoother s' = Some (smoother_init sm) \<and> smoother_inits (out s') = smoother_inits (out s) @ [f]"
  by (auto simp: smooth_step_def basic_defs Let_def)

lemma track_primed:
  assumes sm: "smoother s = Some sm" and i: "sm_initialized sm"
  shows "smoother (state_of (track p e s)) = Some sm \<and>
         smoother_inits (out (state_of (track p e s))) = smoother_inits (out s)"
proof -
  let ?P = "\<lambda>a. smoother a = Some sm \<and> smoother_inits (out a) = smoother_inits (out s)"
  show ?thesis
  proof (rule track_preserves[where P = ?P])
    show "?P s" using sm by simp
  next
    fix a :: tracker assume "?P a"
    then show "?P (state_of (ensure_facetracker p a))" using smoother_ensure[of p a] by simp
  next
    fix a :: tracker assume "?P a"
    then show "?P (announce (tracked e) a)" using smoother_announce[of "tracked e" a] by simp
  next
    fix a :: tracker assume "?P a"
    then show "?P (on_VJ e a)" using smoother_on_VJ[of e a] by simp
  next
    fix a :: tracker assume "?P a"
    then show "?P (rearm p a)" using smoother_rearm[of p a] by simp
  next
    fix a :: tracker assume a: "?P a"
    show "?P (state_of (on_CS p e (tracked e) a))"
    proof (rule on_CS_preserves[where P = ?P])
      show "?P a" by (rule a)
    next
      fix b :: tracker assume "?P b"
      then show "?P (b\<lparr>detectionTimer := None, status := ''tracking''\<rparr>)" by simp
    next
      fix b :: tracker assume "?P b"
      then show "?P (state_of (lost p b))" using smoother_lost[of p b] by simp
    next
      fix b :: tracker assume "?P b"
      then show "?P (found_edge b)" using smoother_found_edge[of b] by simp
    next
      fix b :: tracker and f' s'
      assume "?P b" "smooth_step p e (tracked e) b = Inr (f', s')"
      then show "?P s'"
        using smoother_smooth_step_primed[of b sm p e "tracked e" f' s'] i by simp
    next
      fix b :: tracker and f' assume "?P b"
      then show "?P (state_of (head_position p e f' b))"
        using smoother_head_position[of p e f' b] by simp
    qed
  qed
qed

lemma tracks_primed:
  assumes "smoother s = Some sm" and "sm_initialized sm"
  shows "smoother (state_of (tracks p es s)) = Some sm \<and>
         smoother_inits (out (state_of (tracks p es s))) = smoother_inits (out s)"
  using assms
proof (induction es arbitrary: s)
  case Nil
  then show ?case by simp
next
  case (Cons e es)
  note t = track_primed[OF Cons.prems, of p e]
  show ?case
  proof (cases "track p e s")
    case (Inl x)
    with t show ?thesis by simp
  next
    case (Inr s1)
    with t have "smoother s1 = Some sm" "smoother_inits (out s1) = smoother_inits (out s)"
      by simp_all
    with Cons.IH[of s1] Cons.prems(2) Inr show ?thesis by simp
  qed
qed

lemma track_first_sample:
  assumes r: "ready s" and sp: "smoothing p" and sm: "smoother s = Some sm"
    and i: "\<not> sm_initialized sm" and l: "locked (tracked e)"
  shows "\<exists>s'. track p e s = Inr s' \<and> smoother s' = Some (smoother_init sm) \<and>
           smoother_inits (out s') = smoother_inits (out s) @ [tracked e]"
proof -
  from l have v: "detection (tracked e) = CS" "confidence (tracked e) \<noteq> 0"
    "width (tracked e) \<noteq> 0" "height (tracked e) \<noteq> 0"
    by (simp_all add: locked_def)
  from track_locked[OF r v, of p]
  obtain s1 f' s3 s4 where
    s1: "ensure_facetracker p s = Inr s1" and
    s3: "smooth_step p e (tracked e)
           (found_edge (s1\<lparr>detectionTimer := None, status := ''tracking''\<rparr>)) = Inr (f', s3)" and
    s4: "head_position p e f' s3 = Inr s4" and
    t: "track p e s = Inr (rearm p s4)"
    by blast
  let ?s2 = "found_edge (s1\<lparr>detectionTimer := None, status := ''tracking''\<rparr>)"
  have a: "smoother s1 = Some sm \<and> smoother_inits (out s1) = smoother_inits (out s)"
    using smoother_ensure[of p s] s1 sm by simp
  then have b: "smoother ?s2 = Some sm \<and> smoother_inits (out ?s2) = smoother_inits (out s)"
    using smoother_found_edge[of "s1\<lparr>detectionTimer := None, status := ''tracking''\<rparr>"] by simp
  from b have b1: "smoother ?s2 = Some sm" by simp
  from smoother_smooth_step_first[OF sp b1 i s3] b
  have c: "smoother s3 = Some (smoother_init sm) \<and>
           smoother_inits (out s3) = smoother_inits (out s) @ [tracked e]" by simp
  from smoother_head_position[of p e f' s3] s4 c
  have d: "smoother s4 = Some (smoother_init sm) \<and>
           smoother_inits (out s4) = smoother_inits (out s) @ [tracked e]" by simp
  with smoother_rearm[of p s4] t show ?thesis by simp
qed

section \<open>Properties of the controller\<close>

subsection \<open>Losing the face\<close>

text \<open>
  C1. A poll that returns a "CS" result with nonzero confidence and \<^verbatim>\<open>width == 0\<close> or
  \<^verbatim>\<open>height == 0\<close>, in a tracker that has a canvas, returns and leaves \<^verbatim>\<open>faceFound\<close> false.
  With \<^verbatim>\<open>retryDetection\<close> it leaves \<^verbatim>\<open>run\<close> as it was, drops the pose estimator, dispatches
  "redetecting" and then builds a face tracker with \<^verbatim>\<open>whitebalancing : false\<close>, which is
  the one it keeps. Without it, it dispatches "lost" and then stops: "stopped" is
  dispatched, \<^verbatim>\<open>run\<close> is false and the face tracker is gone.
\<close>

theorem tracking_loss_policy:
  assumes m: "detection (tracked e) = CS"
    and c: "confidence (tracked e) \<noteq> 0"
    and w: "width (tracked e) = 0 \<or> height (tracked e) = 0"
    and cv: "canvasElement s \<noteq> None"
  shows "\<exists>s'. track p e s = Inr s' \<and> faceFound s' = False \<and>
           (if retryDetection p then
              run s' = run s \<and> headposition s' = None \<and>
              facetracker s' = Some \<lparr>whitebalancing = Some False, ft_debug = debug p,
                                     ft_calcAngles = calcAngles p\<rparr> \<and>
              out s' = out s @
                (if facetracker s = None
                 then [NewFacetracker \<lparr>whitebalancing = None, ft_debug = debug p,
                                        ft_calcAngles = calcAngles p\<rparr>]
                 else []) @
                [Dispatch ''redetecting'',
                 NewFacetracker \<lparr>whitebalancing = Some False, ft_debug = debug p,
                                  ft_calcAngles = calcAngles p\<rparr>]
            else
              run s' = False \<and> facetracker s' = None \<and>
              out s' = out s @
                (if facetracker s = None
                 then [NewFacetracker \<lparr>whitebalancing = None, ft_debug = debug p,
                                        ft_calcAngles = calcAngles p\<rparr>]
                 else []) @
                [Dispatch ''lost'', Dispatch ''stopped''])"
proof -
  from cv obtain cvs where cvs: "canvasElement s = Some cvs" by auto
  show ?thesis
  proof (cases "facetracker s")
    case None
    with m c w cvs show ?thesis
      by (cases "retryDetection p")
        (simp_all add: track_def ensure_facetracker_def announce_def on_CS_def lost_def stop_def
          rearm_def basic_defs Let_def split: option.splits)
  next
    case (Some a)
    with m c w cvs show ?thesis
      by (cases "retryDetection p")
        (simp_all add: track_def ensure_facetracker_def announce_def on_CS_def lost_def stop_def
          rearm_def basic_defs Let_def split: option.splits)
  qed
qed

text \<open>Both policies on a running session that has found a face.\<close>

theorem tracking_loss_policy_witness:
  "(\<exists>s'. track default_params (frame CS 1 0 4)
            (execs default_params [Init canvas0, Start (frame CS 1 3 4)] Tracker) = Inr s' \<and>
         run s' \<and> \<not> faceFound s' \<and> headposition s' = None \<and>
         facetracker s' = Some \<lparr>whitebalancing = Some False, ft_debug = False,
                                ft_calcAngles = False\<rparr> \<and>
         dispatched (out s') = [''getUserMedia'', ''found'', ''redetecting'']) \<and>
   (\<exists>s'. track (default_params\<lparr>retryDetection := False\<rparr>) (frame CS 1 0 4)
            (execs (default_params\<lparr>retryDetection := False\<rparr>)
               [Init canvas0, Start (frame CS 1 3 4)] Tracker) = Inr s' \<and>
         \<not> run s' \<and> \<not> faceFound s' \<and> facetracker s' = None \<and>
         dispatched (out s') = [''getUserMedia'', ''found'', ''lost'', ''stopped''])"
proof -
  let ?e = "frame CS 1 0 4"
  let ?q = "default_params\<lparr>retryDetection := False\<rparr>"
  let ?s = "execs default_params [Init canvas0, Start (frame CS 1 3 4)] Tracker"
  let ?t = "execs ?q [Init canvas0, Start (frame CS 1 3 4)] Tracker"
  have m: "detection (tracked ?e) = CS" and c: "confidence (tracked ?e) \<noteq> 0"
    and w: "width (tracked ?e) = 0 \<or> height (tracked ?e) = 0"
    by (simp_all add: frame_def)
  have s: "canvasElement ?s \<noteq> None \<and> run ?s \<and> facetracker ?s \<noteq> None \<and>
           dispatched (out ?s) = [''getUserMedia'', ''found'']"
    by (simp add: input_defs run_defs)
  have t: "canvasElement ?t \<noteq> None \<and> facetracker ?t \<noteq> None \<and>
           dispatched (out ?t) = [''getUserMedia'', ''found'']"
    by (simp add: input_defs run_defs)
  from s have cs: "canvasElement ?s \<noteq> None" by simp
  from t have ct: "canvasElement ?t \<noteq> None" by simp
  have r: "retryDetection default_params" "\<not> retryDetection ?q"
    "debug default_params = False" "calcAngles default_params = False"
    by (simp_all add: default_params_def)
  from tracking_loss_policy[OF m c w cs, of default_params] r s
  have a: "\<exists>s'. track default_params ?e ?s = Inr s' \<and>
         run s' \<and> \<not> faceFound s' \<and> headposition s' = None \<and>
         facetracker s' = Some \<lparr>whitebalancing = Some False, ft_debug = False,
                                ft_calcAngles = False\<rparr> \<and>
         dispatched (out s') = [''getUserMedia'', ''found'', ''redetecting'']"
    by (elim exE conjE, intro exI conjI) (assumption | simp)+
  from tracking_loss_policy[OF m c w ct, of ?q] r t
  have b: "\<exists>s'. track ?q ?e ?t = Inr s' \<and>
         \<not> run s' \<and> \<not> faceFound s' \<and> facetracker s' = None \<and>
         dispatched (out s') = [''getUserMedia'', ''found'', ''lost'', ''stopped'']"
    by (elim exE conjE, intro exI conjI) (assumption | simp)+
  from a b show ?thesis by (rule conjI)
qed

subsection \<open>The "found" event\<close>



subsection \<open>The stability window\<close>

text \<open>
  C3 (amended). After any pushes \<open>ds\<close> into the empty window, the next push \<open>d\<close> leaves
  the last six of the values pushed so far, in arrival order (all of them while there are
  fewer than six). The flag \<^verbatim>\<open>stable\<close> of that push is true iff the window was already
  full before it (six or more earlier pushes) and the double difference of \<^verbatim>\<open>Math.max\<close> and
  \<^verbatim>\<open>Math.min\<close> of the six samples it leaves compares below 5: the push that fills the
  window is never judged. For finite samples whose difference of extrema the machine
  returns exactly, that comparison is max minus min below 5.
\<close>

theorem stability_window:
  "fst (push_diagonal rnd d (foldl (\<lambda>w d. fst (push_diagonal rnd d w)) [] ds))
     = drop (length (ds @ [d]) - 6) (ds @ [d]) \<and>
   (snd (push_diagonal rnd d (foldl (\<lambda>w d. fst (push_diagonal rnd d w)) [] ds)) \<longleftrightarrow>
      6 \<le> length ds \<and>
      less64 (sub64 rnd (Math_max (drop (length (ds @ [d]) - 6) (ds @ [d])))
                        (Math_min (drop (length (ds @ [d]) - 6) (ds @ [d])))) 5) \<and>
   (rnd (Max (set (drop (length (xs @ [x]) - 6) (xs @ [x])))
          - Min (set (drop (length (xs @ [x]) - 6) (xs @ [x]))))
      = Fin (Max (set (drop (length (xs @ [x]) - 6) (xs @ [x])))
              - Min (set (drop (length (xs @ [x]) - 6) (xs @ [x])))) \<longrightarrow>
      (snd (push_diagonal rnd (Fin x)
              (foldl (\<lambda>w d. fst (push_diagonal rnd d w)) [] (map Fin xs))) \<longleftrightarrow>
         6 \<le> length xs \<and>
         Max (set (drop (length (xs @ [x]) - 6) (xs @ [x])))
           - Min (set (drop (length (xs @ [x]) - 6) (xs @ [x]))) < 5))"
proof (intro conjI impI)
  let ?w = "foldl (\<lambda>w d. fst (push_diagonal rnd d w)) [] ds"
  have "fst (push_diagonal rnd d ?w) = foldl (\<lambda>w d. fst (push_diagonal rnd d w)) [] (ds @ [d])"
    by simp
  also have "\<dots> = drop (length (ds @ [d]) - 6) (ds @ [d])" by (rule pushes_window)
  finally show "fst (push_diagonal rnd d ?w) = drop (length (ds @ [d]) - 6) (ds @ [d])" .
next
  show "snd (push_diagonal rnd d (foldl (\<lambda>w d. fst (push_diagonal rnd d w)) [] ds)) \<longleftrightarrow>
      6 \<le> length ds \<and>
      less64 (sub64 rnd (Math_max (drop (length (ds @ [d]) - 6) (ds @ [d])))
                        (Math_min (drop (length (ds @ [d]) - 6) (ds @ [d])))) 5"
    by (rule pushes_stable)
next
  let ?R = "drop (length (xs @ [x]) - 6) (xs @ [x])"
  assume ex: "rnd (Max (set ?R) - Min (set ?R)) = Fin (Max (set ?R) - Min (set ?R))"
  have "?R \<noteq> []" by simp
  then obtain a rs where R: "?R = a # rs" by (cases ?R) auto
  have e: "map Fin xs @ [Fin x] = map Fin (xs @ [x])" by simp
  have "drop (length (map Fin xs @ [Fin x]) - 6) (map Fin xs @ [Fin x]) = map Fin ?R"
    unfolding e by (simp only: length_map drop_map)
  then have m: "drop (length (map Fin xs @ [Fin x]) - 6) (map Fin xs @ [Fin x]) = map Fin (a # rs)"
    by (simp only: R)
  have "sub64 rnd (Math_max (map Fin (a # rs))) (Math_min (map Fin (a # rs)))
          = Fin (Max (set (a # rs)) - Min (set (a # rs)))"
    using ex unfolding R Math_max_Fin Math_min_Fin by simp
  then have "less64 (sub64 rnd (Math_max (map Fin (a # rs))) (Math_min (map Fin (a # rs)))) 5
          \<longleftrightarrow> Max (set (a # rs)) - Min (set (a # rs)) < 5"
    by simp
  with pushes_stable[of rnd "Fin x" "map Fin xs"] m R
  show "snd (push_diagonal rnd (Fin x)
              (foldl (\<lambda>w d. fst (push_diagonal rnd d w)) [] (map Fin xs))) \<longleftrightarrow>
         6 \<le> length xs \<and> Max (set ?R) - Min (set ?R) < 5"
    by simp
qed

text \<open>The seventh push of a steady series is judged stable.\<close>

theorem stability_window_witness:
  "fst (push_diagonal round_integers (Fin 102)
          (foldl (\<lambda>w d. fst (push_diagonal round_integers d w)) []
             (map Fin [100, 102, 101, 103, 100, 102])))
     = map Fin [102, 101, 103, 100, 102, 102] \<and>
   snd (push_diagonal round_integers (Fin 102)
          (foldl (\<lambda>w d. fst (push_diagonal round_integers d w)) []
             (map Fin [100, 102, 101, 103, 100, 102])))"
proof -
  let ?xs = "[100, 102, 101, 103, 100, 102] :: real list"
  let ?R = "drop (length (?xs @ [102]) - 6) (?xs @ [102])"
  have R: "?R = [102, 101, 103, 100, 102, 102]" by simp
  have h: "round_integers (Max (set ?R) - Min (set ?R)) = Fin (Max (set ?R) - Min (set ?R))"
    unfolding R by (simp add: round_integers_def)
  have v: "6 \<le> length ?xs \<and> Max (set ?R) - Min (set ?R) < 5"
    unfolding R by simp
  from stability_window[of round_integers "Fin 102" "map Fin ?xs" ?xs 102] h v
  have a: "fst (push_diagonal round_integers (Fin 102)
          (foldl (\<lambda>w d. fst (push_diagonal round_integers d w)) [] (map Fin ?xs)))
        = drop (length (map Fin ?xs @ [Fin 102]) - 6) (map Fin ?xs @ [Fin 102])"
    and b: "snd (push_diagonal round_integers (Fin 102)
          (foldl (\<lambda>w d. fst (push_diagonal round_integers d w)) [] (map Fin ?xs)))"
    by blast+
  have "drop (length (map Fin ?xs @ [Fin 102]) - 6) (map Fin ?xs @ [Fin 102])
          = map Fin [102, 101, 103, 100, 102, 102]" by simp
  with a b show ?thesis by simp
qed

text \<open>
  C3 as stated fails at the sixth push: the window then holds six samples with span 3,
  also as the machine computes it, and \<^verbatim>\<open>stable\<close> is false.
\<close>

theorem stability_sixth_push_counterexample:
  "foldl (\<lambda>w d. fst (push_diagonal round_integers d w)) [] (map Fin [100, 102, 101, 103, 100])
     = map Fin [100, 102, 101, 103, 100] \<and>
   push_diagonal round_integers (Fin 102) (map Fin [100, 102, 101, 103, 100])
     = (map Fin [100, 102, 101, 103, 100, 102], False) \<and>
   Max (set [100, 102, 101, 103, 100, 102 :: real]) - Min (set [100, 102, 101, 103, 100, 102]) < 5 \<and>
   less64 (sub64 round_integers (Math_max (map Fin [100, 102, 101, 103, 100, 102]))
                                (Math_min (map Fin [100, 102, 101, 103, 100, 102]))) 5"
  by (simp add: push_diagonal_def Math_max_def Math_min_def round_integers_def)

subsection \<open>Calibration of the field of view\<close>

text \<open>
  C4. In every session of a tracker (any calls and timeouts after \<^verbatim>\<open>new Tracker\<close>),
  \<^verbatim>\<open>headposition.getFOV()\<close> is asked at most once. If pose estimators have been built, the
  first was built with \<^verbatim>\<open>params.fov\<close> (the override, or none: the estimator estimates),
  \<^verbatim>\<open>fov\<close> holds what that estimator's \<^verbatim>\<open>getFOV()\<close> returned, and every later estimator, after
  a loss or not, was built with exactly that \<^verbatim>\<open>fov\<close>. From any state in which \<^verbatim>\<open>firstRun\<close> is
  false, no calls change \<^verbatim>\<open>fov\<close> or set \<^verbatim>\<open>firstRun\<close> again.
\<close>

theorem fov_calibrated_once:
  "length (calibrations (out (execs p cs Tracker))) \<le> 1 \<and>
   (case constructed (out (execs p cs Tracker)) of
      [] \<Rightarrow> calibrations (out (execs p cs Tracker)) = []
    | h # hs \<Rightarrow>
        hp_fov h = params_fov p \<and>
        calibrations (out (execs p cs Tracker)) = [fov (execs p cs Tracker)] \<and>
        list_all (\<lambda>h'. hp_fov h' = Some (fov (execs p cs Tracker))) hs) \<and>
   (\<not> firstRun s \<longrightarrow> fov (execs p cs' s) = fov s \<and> \<not> firstRun (execs p cs' s))"
proof -
  have "calibrated p (execs p cs Tracker)" by (rule calibrated_execs)
  then have "length (calibrations (out (execs p cs Tracker))) \<le> 1 \<and>
   (case constructed (out (execs p cs Tracker)) of
      [] \<Rightarrow> calibrations (out (execs p cs Tracker)) = []
    | h # hs \<Rightarrow>
        hp_fov h = params_fov p \<and>
        calibrations (out (execs p cs Tracker)) = [fov (execs p cs Tracker)] \<and>
        list_all (\<lambda>h'. hp_fov h' = Some (fov (execs p cs Tracker))) hs)"
    by (cases "firstRun (execs p cs Tracker)") (auto simp: calibrated_def split: list.splits)
  then show ?thesis using fov_kept_execs[of s p cs'] by blast
qed

text \<open>
  The steady session bootstraps at its seventh poll; a loss and a new lock build a second
  estimator with the recorded 30 degrees.
\<close>

theorem fov_calibrated_once_witness:
  "length (calibrations (out (execs default_params
       (steady_session @ [Timeout 6 (frame CS 1 0 0), Timeout 7 (frame CS 1 3 4)]) Tracker))) \<le> 1 \<and>
   map hp_fov (constructed (out (execs default_params
       (steady_session @ [Timeout 6 (frame CS 1 0 0), Timeout 7 (frame CS 1 3 4)]) Tracker)))
     = [None, Some 30] \<and>
   fov (execs default_params steady_session Tracker) = 30 \<and>
   fov (execs default_params [Timeout 6 (frame CS 1 0 0), Timeout 7 (frame CS 1 3 4)]
          (execs default_params steady_session Tracker))
     = fov (execs default_params steady_session Tracker) \<and>
   \<not> firstRun (execs default_params [Timeout 6 (frame CS 1 0 0), Timeout 7 (frame CS 1 3 4)]
          (execs default_params steady_session Tracker))"
proof -
  let ?s = "execs default_params steady_session Tracker"
  let ?cs = "steady_session @ [Timeout 6 (frame CS 1 0 0), Timeout 7 (frame CS 1 3 4)]"
  have h: "\<not> firstRun ?s \<and> fov ?s = 30" by (simp add: input_defs run_defs sqrt_25)
  have c: "map hp_fov (constructed (out (execs default_params ?cs Tracker))) = [None, Some 30]"
    by (simp add: input_defs run_defs sqrt_25)
  from fov_calibrated_once[of default_params ?cs ?s
      "[Timeout 6 (frame CS 1 0 0), Timeout 7 (frame CS 1 3 4)]"] h c
  show ?thesis by blast
qed

subsection \<open>stop twice\<close>

text \<open>
  C5 (amended). \<^verbatim>\<open>stop()\<close> returns true every time. Each call clears the timeout whose
  handle \<^verbatim>\<open>detector\<close> holds (and no other), sets \<^verbatim>\<open>run\<close> to false, dispatches "stopped",
  discards the face tracker and clears \<^verbatim>\<open>faceFound\<close>, and leaves every other variable. A
  second call in a row changes nothing but the log, where "stopped" is dispatched again:
  two calls dispatch it twice.
\<close>

theorem stop_twice:
  "fst (stop s) \<and> fst (stop (snd (stop s))) \<and>
   snd (stop s) =
     s\<lparr>timers := filter (\<lambda>t. Some (fst t) \<noteq> detector s) (timers s), run := False,
       status := ''stopped'', out := out s @ [Dispatch ''stopped''],
       facetracker := None, faceFound := False\<rparr> \<and>
   snd (stop (snd (stop s))) = (snd (stop s))\<lparr>out := out (snd (stop s)) @ [Dispatch ''stopped'']\<rparr> \<and>
   dispatched (out (snd (stop (snd (stop s))))) = dispatched (out s) @ [''stopped'', ''stopped'']"
proof (cases "detector s")
  case None
  then show ?thesis by (simp add: stop_def basic_defs Let_def)
next
  case (Some i)
  have "(\<lambda>t. Some (fst t) \<noteq> Some i) = (\<lambda>t. fst t \<noteq> i)" by auto
  with Some show ?thesis by (simp add: stop_def basic_defs Let_def)
qed

text \<open>Two stops of a running session.\<close>

theorem stop_twice_witness:
  "fst (stop (execs default_params [Init canvas0, Start (frame VJ 1 3 4)] Tracker)) \<and>
   fst (stop (snd (stop (execs default_params [Init canvas0, Start (frame VJ 1 3 4)] Tracker)))) \<and>
   run (execs default_params [Init canvas0, Start (frame VJ 1 3 4)] Tracker) \<and>
   timers (execs default_params [Init canvas0, Start (frame VJ 1 3 4)] Tracker)
     = [(0, TrackCb, 20)] \<and>
   \<not> run (snd (stop (execs default_params [Init canvas0, Start (frame VJ 1 3 4)] Tracker))) \<and>
   timers (snd (stop (execs default_params [Init canvas0, Start (frame VJ 1 3 4)] Tracker)))
     = [] \<and>
   facetracker (snd (stop (execs default_params [Init canvas0, Start (frame VJ 1 3 4)] Tracker)))
     = None \<and>
   \<not> run (snd (stop (snd (stop
       (execs default_params [Init canvas0, Start (frame VJ 1 3 4)] Tracker))))) \<and>
   timers (snd (stop (snd (stop
       (execs default_params [Init canvas0, Start (frame VJ 1 3 4)] Tracker))))) = [] \<and>
   dispatched (out (snd (stop (snd (stop
       (execs default_params [Init canvas0, Start (frame VJ 1 3 4)] Tracker))))))
     = [''getUserMedia'', ''detecting'', ''stopped'', ''stopped'']"
proof -
  let ?s = "execs default_params [Init canvas0, Start (frame VJ 1 3 4)] Tracker"
  from stop_twice[of ?s]
  have a: "fst (stop ?s)" and b: "fst (stop (snd (stop ?s)))"
    and o: "snd (stop ?s) =
     ?s\<lparr>timers := filter (\<lambda>t. Some (fst t) \<noteq> detector ?s) (timers ?s), run := False,
       status := ''stopped'', out := out ?s @ [Dispatch ''stopped''],
       facetracker := None, faceFound := False\<rparr>"
    and c: "snd (stop (snd (stop ?s)))
              = (snd (stop ?s))\<lparr>out := out (snd (stop ?s)) @ [Dispatch ''stopped'']\<rparr>"
    and d: "dispatched (out (snd (stop (snd (stop ?s)))))
              = dispatched (out ?s) @ [''stopped'', ''stopped'']"
    by blast+
  have e: "dispatched (out ?s) = [''getUserMedia'', ''detecting''] \<and> run ?s \<and>
           timers ?s = [(0, TrackCb, 20)] \<and> detector ?s = Some 0"
    by (simp add: input_defs run_defs)
  have f: "\<not> run (snd (stop ?s)) \<and> timers (snd (stop ?s)) = [] \<and>
           facetracker (snd (stop ?s)) = None"
    unfolding o using e by simp
  have g: "\<not> run (snd (stop (snd (stop ?s)))) \<and> timers (snd (stop (snd (stop ?s)))) = []"
    unfolding c using f by simp
  from a b d e f g show ?thesis by simp
qed

text \<open>C5 as stated fails: two stops of a running session dispatch "stopped" twice.\<close>

theorem stop_twice_counterexample:
  "dispatched (out (execs default_params [Init canvas0, Start (frame VJ 1 3 4), Stop] Tracker))
     = [''getUserMedia'', ''detecting'', ''stopped''] \<and>
   dispatched (out (execs default_params [Init canvas0, Start (frame VJ 1 3 4), Stop, Stop] Tracker))
     = [''getUserMedia'', ''detecting'', ''stopped'', ''stopped'']"
  by (simp add: input_defs run_defs)

subsection \<open>start\<close>

text \<open>
  C6 (amended). \<^verbatim>\<open>start()\<close> returns false, and changes nothing, exactly when \<^verbatim>\<open>init\<close> has
  not run. In every initialised tracker, running or not, it returns true and probes the
  whitebalance: on a positive reading it sets \<^verbatim>\<open>run\<close> and makes the first poll at once
  (which schedules the next one if it leaves \<^verbatim>\<open>run\<close> set); when the probe reads no positive
  value or throws, it schedules itself again after 100 ms and changes nothing else; when
  the first poll throws, it schedules itself again after 100 ms in the state of the throw.
\<close>

theorem start_gate:
  "(\<not> this_initialized s \<longrightarrow> start p e s = (False, s)) \<and>
   (this_initialized s \<longrightarrow> fst (start p e s)) \<and>
   (this_initialized s \<and> ready s \<and> (\<exists>v. whitebalance e = Some v \<and> v > 0) \<longrightarrow>
      (\<exists>s'. track p e (s\<lparr>run := True\<rparr>) = Inr s' \<and> snd (start p e s) = s' \<and>
            (run s' \<longrightarrow> (\<exists>i. detector s' = Some i \<and>
                               (i, TrackCb, detectionInterval p) \<in> set (timers s'))))) \<and>
   (this_initialized s \<and>
    (canvasElement s = None \<or> whitebalance e = None \<or>
     (\<exists>v. whitebalance e = Some v \<and> \<not> v > 0)) \<longrightarrow>
      snd (start p e s) =
        s\<lparr>timers := timers s @ [(next_timer s, StarterCb, 100)],
          next_timer := Suc (next_timer s)\<rparr>) \<and>
   (this_initialized s \<and> canvasElement s \<noteq> None \<and> (\<exists>v. whitebalance e = Some v \<and> v > 0) \<and>
    track p e (s\<lparr>run := True\<rparr>) = Inl (er, t) \<longrightarrow>
      snd (start p e s) =
        t\<lparr>timers := timers t @ [(next_timer t, StarterCb, 100)],
          next_timer := Suc (next_timer t)\<rparr>)"
proof (intro conjI impI)
  assume "\<not> this_initialized s"
  then show "start p e s = (False, s)" by (simp add: start_def)
next
  assume "this_initialized s"
  then show "fst (start p e s)" by (simp add: start_def)
next
  assume a: "this_initialized s \<and> ready s \<and> (\<exists>v. whitebalance e = Some v \<and> v > 0)"
  then have "ready (s\<lparr>run := True\<rparr>)" by (simp add: ready_def)
  from ready_track[OF this, of p e]
  obtain s' where s': "track p e (s\<lparr>run := True\<rparr>) = Inr s'" by blast
  have "snd (start p e s) = s'" using a s' by (auto simp: start_def starter_def ready_def)
  with s' track_rearmed[OF s']
  show "\<exists>s'. track p e (s\<lparr>run := True\<rparr>) = Inr s' \<and> snd (start p e s) = s' \<and>
            (run s' \<longrightarrow> (\<exists>i. detector s' = Some i \<and>
                               (i, TrackCb, detectionInterval p) \<in> set (timers s')))"
    by blast
next
  assume a: "this_initialized s \<and>
    (canvasElement s = None \<or> whitebalance e = None \<or>
     (\<exists>v. whitebalance e = Some v \<and> \<not> v > 0))"
  then show "snd (start p e s) =
        s\<lparr>timers := timers s @ [(next_timer s, StarterCb, 100)],
          next_timer := Suc (next_timer s)\<rparr>"
    by (auto simp: start_def starter_def basic_defs)
next
  assume a: "this_initialized s \<and> canvasElement s \<noteq> None \<and>
    (\<exists>v. whitebalance e = Some v \<and> v > 0) \<and> track p e (s\<lparr>run := True\<rparr>) = Inl (er, t)"
  then show "snd (start p e s) =
        t\<lparr>timers := timers t @ [(next_timer t, StarterCb, 100)],
          next_timer := Suc (next_timer t)\<rparr>"
    by (auto simp: start_def starter_def basic_defs)
qed

text \<open>Before \<^verbatim>\<open>init\<close>; after it with a probe that reads 1; after it with a probe that throws.\<close>

theorem start_gate_witness:
  "start default_params (frame VJ 1 3 4) Tracker = (False, Tracker) \<and>
   fst (start default_params (frame VJ 1 3 4) (init default_params canvas0 Tracker)) \<and>
   (\<exists>s'. track default_params (frame VJ 1 3 4)
            ((init default_params canvas0 Tracker)\<lparr>run := True\<rparr>) = Inr s' \<and>
         snd (start default_params (frame VJ 1 3 4) (init default_params canvas0 Tracker)) = s') \<and>
   timers (snd (start default_params ((frame VJ 1 3 4)\<lparr>whitebalance := None\<rparr>)
                  (init default_params canvas0 Tracker)))
     = [(0, StarterCb, 100)] \<and>
   \<not> run (snd (start default_params ((frame VJ 1 3 4)\<lparr>whitebalance := None\<rparr>)
                  (init default_params canvas0 Tracker)))"
proof -
  let ?e = "frame VJ 1 3 4"
  let ?x = "(frame VJ 1 3 4)\<lparr>whitebalance := None\<rparr>"
  let ?s = "init default_params canvas0 Tracker"
  have a: "\<not> this_initialized Tracker" by (simp add: Tracker_def)
  have b: "this_initialized ?s \<and> ready ?s \<and> (\<exists>v. whitebalance ?e = Some v \<and> v > 0)"
    by (simp add: ready_def init_def basic_defs Let_def frame_def)
  have c: "this_initialized ?s \<and>
    (canvasElement ?s = None \<or> whitebalance ?x = None \<or>
     (\<exists>v. whitebalance ?x = Some v \<and> \<not> v > 0))"
    by (simp add: init_def basic_defs Let_def)
  have v: "timers ?s = [] \<and> next_timer ?s = 0 \<and> \<not> run ?s"
    by (simp add: init_def Tracker_def basic_defs Let_def)
  from start_gate[of Tracker default_params ?e] a
  have 1: "start default_params ?e Tracker = (False, Tracker)" by blast
  from start_gate[of ?s default_params ?e] b
  have 2: "fst (start default_params ?e ?s)" by blast
  from start_gate[of ?s default_params ?e] b
  have 3: "\<exists>s'. track default_params ?e (?s\<lparr>run := True\<rparr>) = Inr s' \<and>
                snd (start default_params ?e ?s) = s'" by blast
  from start_gate[of ?s default_params ?x] c
  have "snd (start default_params ?x ?s) =
        ?s\<lparr>timers := timers ?s @ [(next_timer ?s, StarterCb, 100)],
          next_timer := Suc (next_timer ?s)\<rparr>" by blast
  then have 4: "timers (snd (start default_params ?x ?s)) = [(0, StarterCb, 100)] \<and>
                \<not> run (snd (start default_params ?x ?s))"
    using v by simp
  from 1 2 3 4 show ?thesis by blast
qed

text \<open>
  C6 as stated fails: in a running session \<^verbatim>\<open>start()\<close> returns true and arms a second
  poll beside the pending one.
\<close>

theorem start_running_counterexample:
  "run (execs default_params [Init canvas0, Start (frame VJ 1 3 4)] Tracker) \<and>
   timers (execs default_params [Init canvas0, Start (frame VJ 1 3 4)] Tracker)
     = [(0, TrackCb, 20)] \<and>
   fst (start default_params (frame VJ 1 3 4)
          (execs default_params [Init canvas0, Start (frame VJ 1 3 4)] Tracker)) \<and>
   timers (snd (start default_params (frame VJ 1 3 4)
          (execs default_params [Init canvas0, Start (frame VJ 1 3 4)] Tracker)))
     = [(0, TrackCb, 20), (1, TrackCb, 20)]"
  by (simp add: input_defs run_defs)

subsection \<open>Results with confidence 0\<close>

text \<open>
  C7 (amended). Polls whose results all have \<^verbatim>\<open>confidence == 0\<close> return and leave \<^verbatim>\<open>run\<close>,
  \<^verbatim>\<open>detectionTimer\<close>, \<^verbatim>\<open>faceFound\<close>, the pose estimator, the window, \<^verbatim>\<open>fov\<close>, \<^verbatim>\<open>firstRun\<close> and
  the smoother as they were. The only statuses dispatched are the announcements made
  before the confidence check: "whitebalance" for a "WB" result, "detecting" for a "VJ"
  result while \<^verbatim>\<open>firstRun\<close> holds, nothing for a "CS" result.
\<close>

theorem no_detection_frames:
  assumes c: "\<forall>e \<in> set es. confidence (tracked e) = 0"
    and f: "facetracker s \<noteq> None \<or> canvasElement s \<noteq> None"
  shows "\<exists>s'. tracks p es s = Inr s' \<and>
           run s' = run s \<and> detectionTimer s' = detectionTimer s \<and>
           faceFound s' = faceFound s \<and> headposition s' = headposition s \<and>
           headDiagonal s' = headDiagonal s \<and> fov s' = fov s \<and> firstRun s' = firstRun s \<and>
           smoother s' = smoother s \<and>
           dispatched (out s') = dispatched (out s) @
             concat (map (\<lambda>e. if detection (tracked e) = WB then [''whitebalance'']
                               else if detection (tracked e) = VJ \<and> firstRun s then [''detecting'']
                               else []) es)"
  using c f
proof (induction es arbitrary: s)
  case Nil
  then show ?case by simp
next
  case (Cons e es)
  from Cons.prems have c: "confidence (tracked e) = 0" by simp
  from track_no_detection[OF c Cons.prems(2), of p]
  obtain s1 where s1: "track p e s = Inr s1" "facetracker s1 \<noteq> None"
      "run s1 = run s" "detectionTimer s1 = detectionTimer s"
      "faceFound s1 = faceFound s" "headposition s1 = headposition s"
      "headDiagonal s1 = headDiagonal s" "fov s1 = fov s" "firstRun s1 = firstRun s"
      "smoother s1 = smoother s"
      "dispatched (out s1) = dispatched (out s) @
             (if detection (tracked e) = WB then [''whitebalance'']
              else if detection (tracked e) = VJ \<and> firstRun s then [''detecting'']
              else [])"
    by blast
  have "\<forall>e \<in> set es. confidence (tracked e) = 0" using Cons.prems by simp
  moreover have "facetracker s1 \<noteq> None \<or> canvasElement s1 \<noteq> None" using s1(2) by simp
  ultimately obtain s' where s': "tracks p es s1 = Inr s'"
      "run s' = run s1" "detectionTimer s' = detectionTimer s1"
      "faceFound s' = faceFound s1" "headposition s' = headposition s1"
      "headDiagonal s' = headDiagonal s1" "fov s' = fov s1" "firstRun s' = firstRun s1"
      "smoother s' = smoother s1"
      "dispatched (out s') = dispatched (out s1) @
             concat (map (\<lambda>e. if detection (tracked e) = WB then [''whitebalance'']
                               else if detection (tracked e) = VJ \<and> firstRun s1 then [''detecting'']
                               else []) es)"
    using Cons.IH[of s1] by blast
  show ?case using s1 s' by (simp cong: if_cong)
qed

text \<open>Five such polls after \<^verbatim>\<open>init\<close>, three of them announcing.\<close>

theorem no_detection_frames_witness:
  "\<exists>s'. tracks default_params
          [frame CS 0 3 4, frame VJ 0 3 4, frame WB 0 0 0, frame VJ 0 0 0, frame CS 0 0 0]
          (init default_params canvas0 Tracker) = Inr s' \<and>
        \<not> run s' \<and> detectionTimer s' = None \<and> \<not> faceFound s' \<and> headposition s' = None \<and>
        headDiagonal s' = [] \<and> fov s' = 0 \<and> firstRun s' \<and>
        dispatched (out s') = [''getUserMedia'', ''detecting'', ''whitebalance'', ''detecting'']"
proof -
  let ?es = "[frame CS 0 3 4, frame VJ 0 3 4, frame WB 0 0 0, frame VJ 0 0 0, frame CS 0 0 0]"
  let ?s = "init default_params canvas0 Tracker"
  have h1: "\<forall>e \<in> set ?es. confidence (tracked e) = 0" by (simp add: frame_def)
  have h2: "facetracker ?s \<noteq> None \<or> canvasElement ?s \<noteq> None"
    by (simp add: init_def basic_defs Let_def)
  from no_detection_frames[OF h1 h2, of default_params]
  obtain s' where t: "tracks default_params ?es ?s = Inr s'"
    and f: "run s' = run ?s" "detectionTimer s' = detectionTimer ?s"
      "faceFound s' = faceFound ?s" "headposition s' = headposition ?s"
      "headDiagonal s' = headDiagonal ?s" "fov s' = fov ?s" "firstRun s' = firstRun ?s"
    and d: "dispatched (out s') = dispatched (out ?s) @
             concat (map (\<lambda>e. if detection (tracked e) = WB then [''whitebalance'']
                               else if detection (tracked e) = VJ \<and> firstRun ?s
                                    then [''detecting''] else []) ?es)"
    by blast
  have v: "\<not> run s' \<and> detectionTimer s' = None \<and> \<not> faceFound s' \<and> headposition s' = None \<and>
        headDiagonal s' = [] \<and> fov s' = 0 \<and> firstRun s'"
    unfolding f by (simp add: init_def Tracker_def basic_defs Let_def)
  have "dispatched (out s') = [''getUserMedia'', ''detecting'', ''whitebalance'', ''detecting'']"
    unfolding d by (simp add: init_def Tracker_def frame_def default_params_def basic_defs Let_def)
  with t v show ?thesis by blast
qed

text \<open>
  C7 as stated fails: five consecutive coarse results with confidence 0 in a started
  session dispatch "detecting" five times.
\<close>

theorem no_detection_counterexample:
  "confidence (tracked (frame VJ 0 0 0)) = 0 \<and>
   dispatched (out (execs default_params [Init canvas0] Tracker)) = [''getUserMedia''] \<and>
   dispatched (out (execs default_params
      [Init canvas0, Start (frame VJ 0 0 0), Timeout 0 (frame VJ 0 0 0),
       Timeout 1 (frame VJ 0 0 0), Timeout 2 (frame VJ 0 0 0), Timeout 3 (frame VJ 0 0 0)]
      Tracker))
     = [''getUserMedia'', ''detecting'', ''detecting'', ''detecting'', ''detecting'',
        ''detecting'']"
  by (simp add: input_defs run_defs)

subsection \<open>The smoother across a loss\<close>

text \<open>
  C8 (amended). A loss with retry resets \<^verbatim>\<open>faceFound\<close> and the pose estimator and leaves the
  smoother, with its flag \<^verbatim>\<open>initialized\<close>, as it is. Once the smoother is initialised no
  polls call \<^verbatim>\<open>smoother.init\<close> again or change the flag. \<^verbatim>\<open>smoother.init\<close> is called, with
  the sample of that poll, by the first valid lock that finds the smoother of \<^verbatim>\<open>init\<close>
  uninitialised (smoothing enabled).
\<close>

theorem smoother_kept_on_retry:
  "(canvasElement s \<noteq> None \<and> lock_lost (tracked e) \<and> retryDetection p \<longrightarrow>
      (\<exists>s'. track p e s = Inr s' \<and> \<not> faceFound s' \<and> headposition s' = None \<and>
            smoother s' = smoother s \<and> smoother_inits (out s') = smoother_inits (out s))) \<and>
   (smoother s = Some sm \<and> sm_initialized sm \<longrightarrow>
      smoother (state_of (tracks p es s)) = Some sm \<and>
      smoother_inits (out (state_of (tracks p es s))) = smoother_inits (out s)) \<and>
   (ready s \<and> smoothing p \<and> smoother s = Some sm \<and> \<not> sm_initialized sm \<and>
    locked (tracked e') \<longrightarrow>
      (\<exists>s'. track p e' s = Inr s' \<and> smoother s' = Some (smoother_init sm) \<and>
            smoother_inits (out s') = smoother_inits (out s) @ [tracked e']))"
proof (intro conjI impI)
  assume a: "canvasElement s \<noteq> None \<and> lock_lost (tracked e) \<and> retryDetection p"
  then have "lock_lost (tracked e)" "canvasElement s \<noteq> None" by simp_all
  from track_lock_lost[OF this, of p] a
  show "\<exists>s'. track p e s = Inr s' \<and> \<not> faceFound s' \<and> headposition s' = None \<and>
            smoother s' = smoother s \<and> smoother_inits (out s') = smoother_inits (out s)"
    by auto
next
  assume a: "smoother s = Some sm \<and> sm_initialized sm"
  then have b: "smoother s = Some sm" "sm_initialized sm" by simp_all
  from tracks_primed[OF b, of p es]
  show "smoother (state_of (tracks p es s)) = Some sm" by simp
  from tracks_primed[OF b, of p es]
  show "smoother_inits (out (state_of (tracks p es s))) = smoother_inits (out s)" by simp
next
  assume "ready s \<and> smoothing p \<and> smoother s = Some sm \<and> \<not> sm_initialized sm \<and>
    locked (tracked e')"
  then have "ready s" "smoothing p" "smoother s = Some sm" "\<not> sm_initialized sm"
    "locked (tracked e')" by simp_all
  then show "\<exists>s'. track p e' s = Inr s' \<and> smoother s' = Some (smoother_init sm) \<and>
            smoother_inits (out s') = smoother_inits (out s) @ [tracked e']"
    by (rule track_first_sample)
qed

text \<open>
  The first lock initialises the smoother; the loss keeps it; the lock after the loss
  does not initialise it again.
\<close>

theorem smoother_kept_on_retry_witness:
  "(\<exists>s'. track default_params (frame CS 1 3 4) (init default_params canvas0 Tracker) = Inr s' \<and>
         smoother s' = Some (smoother_init (new_Smoother 0.35 35)) \<and>
         smoother_inits (out s') = [tracked (frame CS 1 3 4)]) \<and>
   (\<exists>s'. track default_params (frame CS 1 0 0)
            (execs default_params [Init canvas0, Start (frame CS 1 3 4)] Tracker) = Inr s' \<and>
         \<not> faceFound s' \<and> headposition s' = None \<and>
         smoother s' = Some (smoother_init (new_Smoother 0.35 35))) \<and>
   smoother_inits (out (state_of (tracks default_params [frame CS 1 0 0, frame CS 1 6 8]
       (execs default_params [Init canvas0, Start (frame CS 1 3 4)] Tracker))))
     = [tracked (frame CS 1 3 4)]"
proof -
  let ?i = "init default_params canvas0 Tracker"
  let ?s = "execs default_params [Init canvas0, Start (frame CS 1 3 4)] Tracker"
  let ?sm = "new_Smoother 0.35 35"
  have h1: "ready ?i \<and> smoothing default_params \<and> smoother ?i = Some ?sm \<and>
            \<not> sm_initialized ?sm \<and> locked (tracked (frame CS 1 3 4))"
    by (simp add: ready_def init_def Tracker_def basic_defs Let_def default_params_def
        new_Smoother_def frame_def locked_def canvas0_def)
  have i0: "smoother_inits (out ?i) = []"
    by (simp add: init_def Tracker_def basic_defs Let_def)
  have h2: "canvasElement ?s \<noteq> None \<and> lock_lost (tracked (frame CS 1 0 0)) \<and>
            retryDetection default_params"
    by (simp add: input_defs run_defs lock_lost_def)
  have h3: "smoother ?s = Some (smoother_init ?sm) \<and> sm_initialized (smoother_init ?sm) \<and>
            smoother_inits (out ?s) = [tracked (frame CS 1 3 4)]"
    by (simp add: input_defs run_defs)
  from smoother_kept_on_retry[of ?i "frame CS 1 0 0" default_params ?sm "[]" "frame CS 1 3 4"] h1
  have 1: "\<exists>s'. track default_params (frame CS 1 3 4) ?i = Inr s' \<and>
         smoother s' = Some (smoother_init ?sm) \<and>
         smoother_inits (out s') = smoother_inits (out ?i) @ [tracked (frame CS 1 3 4)]"
    by blast
  from smoother_kept_on_retry[of ?s "frame CS 1 0 0" default_params "smoother_init ?sm"
      "[frame CS 1 0 0, frame CS 1 6 8]" "frame CS 1 3 4"] h2 h3
  have 2: "\<exists>s'. track default_params (frame CS 1 0 0) ?s = Inr s' \<and>
         \<not> faceFound s' \<and> headposition s' = None \<and> smoother s' = smoother ?s"
    and 3: "smoother_inits (out (state_of (tracks default_params
              [frame CS 1 0 0, frame CS 1 6 8] ?s))) = smoother_inits (out ?s)"
    by blast+
  from 1 2 3 h3 i0 show ?thesis by simp
qed

text \<open>
  C8 as stated fails: after the loss with retry the smoother is still initialised, and
  the reacquired face (width 6) is "found" without a second \<^verbatim>\<open>smoother.init\<close>.
\<close>

theorem smoother_reset_counterexample:
  "smoother (execs default_params [Init canvas0, Start (frame CS 1 3 4)] Tracker)
     = Some \<lparr>sm_alpha = 0.35, sm_interval = 35, sm_initialized = True\<rparr> \<and>
   lock_lost (tracked (frame CS 1 0 0)) \<and> retryDetection default_params \<and>
   smoother (execs default_params
       [Init canvas0, Start (frame CS 1 3 4), Timeout 0 (frame CS 1 0 0)] Tracker)
     = Some \<lparr>sm_alpha = 0.35, sm_interval = 35, sm_initialized = True\<rparr> \<and>
   dispatched (out (execs default_params
       [Init canvas0, Start (frame CS 1 3 4), Timeout 0 (frame CS 1 0 0),
        Timeout 1 (frame CS 1 6 8)] Tracker))
     = [''getUserMedia'', ''found'', ''redetecting'', ''found''] \<and>
   map width (smoother_inits (out (execs default_params
       [Init canvas0, Start (frame CS 1 3 4), Timeout 0 (frame CS 1 0 0),
        Timeout 1 (frame CS 1 6 8)] Tracker))) = [3]"
  by (simp add: input_defs run_defs lock_lost_def)

subsection \<open>getFOV\<close>

text \<open>
  C9. In every session of a tracker, while no pose estimator has been built \<^verbatim>\<open>getFOV()\<close>
  returns 0, the initial value of \<^verbatim>\<open>fov\<close> (the controller's "unset"); once one has been
  built it returns the value that the first estimator's \<^verbatim>\<open>getFOV()\<close> reported.
\<close>

theorem getFOV_calibration:
  "(constructed (out (execs p cs Tracker)) = [] \<longrightarrow>
      firstRun (execs p cs Tracker) \<and> getFOV (execs p cs Tracker) = 0) \<and>
   (constructed (out (execs p cs Tracker)) \<noteq> [] \<longrightarrow>
      \<not> firstRun (execs p cs Tracker) \<and>
      calibrations (out (execs p cs Tracker)) = [getFOV (execs p cs Tracker)])"
proof -
  have "calibrated p (execs p cs Tracker)" by (rule calibrated_execs)
  then show ?thesis
    by (cases "firstRun (execs p cs Tracker)")
      (auto simp: calibrated_def getFOV_def split: list.splits)
qed

text \<open>
  After construction, after \<^verbatim>\<open>init\<close> and \<^verbatim>\<open>start\<close>, after six steady polls, and after the
  seventh, which bootstraps.
\<close>

theorem getFOV_calibration_witness:
  "getFOV Tracker = 0 \<and>
   getFOV (execs default_params [Init canvas0, Start (frame VJ 1 3 4)] Tracker) = 0 \<and>
   getFOV (execs default_params (butlast steady_session) Tracker) = 0 \<and>
   calibrations (out (execs default_params steady_session Tracker))
     = [getFOV (execs default_params steady_session Tracker)] \<and>
   getFOV (execs default_params steady_session Tracker) = 30"
proof -
  have a: "constructed (out (execs default_params [] Tracker)) = []"
    by (simp add: Tracker_def)
  have b: "constructed (out (execs default_params [Init canvas0, Start (frame VJ 1 3 4)] Tracker)) = []"
    by (simp add: input_defs run_defs)
  have c: "constructed (out (execs default_params (butlast steady_session) Tracker)) = []"
    by (simp add: input_defs run_defs sqrt_25)
  have d: "constructed (out (execs default_params steady_session Tracker)) \<noteq> []"
    by (simp add: input_defs run_defs sqrt_25)
  have e: "getFOV (execs default_params steady_session Tracker) = 30"
    by (simp add: getFOV_def input_defs run_defs sqrt_25)
  from getFOV_calibration[of default_params "[]"] a
  have 1: "getFOV Tracker = 0" by simp
  from getFOV_calibration[of default_params "[Init canvas0, Start (frame VJ 1 3 4)]"] b
  have 2: "getFOV (execs default_params [Init canvas0, Start (frame VJ 1 3 4)] Tracker) = 0"
    by blast
  from getFOV_calibration[of default_params "butlast steady_session"] c
  have 3: "getFOV (execs default_params (butlast steady_session) Tracker) = 0" by blast
  from getFOV_calibration[of default_params steady_session] d
  have 4: "calibrations (out (execs default_params steady_session Tracker))
     = [getFOV (execs default_params steady_session Tracker)]" by blast
  from 1 2 3 4 e show ?thesis by blast
qed

subsection \<open>The window outlives losses and stops\<close>

text \<open>
  C10. \<^verbatim>\<open>stop()\<close> leaves \<^verbatim>\<open>headDiagonal\<close> as it is, and so does a poll whose fine-tracking
  result has width or height 0 (under either loss policy); no calls ever make it
  shorter. So the window survives: after seven steady polls and a loss with retry, the
  pose estimator is gone and the window still holds six samples, and the first valid
  result builds the second estimator at once; after six steady polls and a \<^verbatim>\<open>stop()\<close>,
  the first poll of the restarted tracker builds the first estimator at once.
\<close>

theorem window_never_cleared:
  "headDiagonal (snd (stop s)) = headDiagonal s \<and>
   (detection (tracked e) = CS \<and> (width (tracked e) = 0 \<or> height (tracked e) = 0) \<longrightarrow>
      headDiagonal (state_of (track p e s)) = headDiagonal s) \<and>
   length (headDiagonal s) \<le> length (headDiagonal (execs p cs s)) \<and>
   headposition (execs default_params (steady_session @ [Timeout 6 (frame CS 1 0 0)]) Tracker)
     = None \<and>
   headDiagonal (execs default_params (steady_session @ [Timeout 6 (frame CS 1 0 0)]) Tracker)
     = [Fin 5, Fin 5, Fin 5, Fin 5, Fin 5, Fin 5] \<and>
   length (constructed (out
       (execs default_params (steady_session @ [Timeout 6 (frame CS 1 0 0)]) Tracker))) = 1 \<and>
   length (constructed (out
       (execs default_params
          (steady_session @ [Timeout 6 (frame CS 1 0 0), Timeout 7 (frame CS 1 3 4)]) Tracker))) = 2 \<and>
   headposition (execs default_params (butlast steady_session @ [Stop]) Tracker) = None \<and>
   headDiagonal (execs default_params (butlast steady_session @ [Stop]) Tracker)
     = [Fin 5, Fin 5, Fin 5, Fin 5, Fin 5, Fin 5] \<and>
   length (constructed (out
       (execs default_params (butlast steady_session @ [Stop, Start (frame CS 1 3 4)]) Tracker))) = 1"
proof -
  have 1: "headDiagonal (snd (stop s)) = headDiagonal s"
    using core_stop[of s] by (simp add: core_def)
  have 2: "detection (tracked e) = CS \<and> (width (tracked e) = 0 \<or> height (tracked e) = 0) \<longrightarrow>
      headDiagonal (state_of (track p e s)) = headDiagonal s"
    using window_lost_frame[of e p s] by blast
  have 3: "length (headDiagonal s) \<le> length (headDiagonal (execs p cs s))"
    by (rule window_execs)
  have 4: "headposition (execs default_params (steady_session @ [Timeout 6 (frame CS 1 0 0)]) Tracker)
     = None \<and>
   headDiagonal (execs default_params (steady_session @ [Timeout 6 (frame CS 1 0 0)]) Tracker)
     = [Fin 5, Fin 5, Fin 5, Fin 5, Fin 5, Fin 5] \<and>
   length (constructed (out
       (execs default_params (steady_session @ [Timeout 6 (frame CS 1 0 0)]) Tracker))) = 1"
    by (simp add: input_defs run_defs sqrt_25)
  have 5: "length (constructed (out
       (execs default_params
          (steady_session @ [Timeout 6 (frame CS 1 0 0), Timeout 7 (frame CS 1 3 4)]) Tracker))) = 2"
    by (simp add: input_defs run_defs sqrt_25)
  have 6: "headposition (execs default_params (butlast steady_session @ [Stop]) Tracker) = None \<and>
   headDiagonal (execs default_params (butlast steady_session @ [Stop]) Tracker)
     = [Fin 5, Fin 5, Fin 5, Fin 5, Fin 5, Fin 5]"
    by (simp add: input_defs run_defs sqrt_25)
  have 7: "length (constructed (out
       (execs default_params (butlast steady_session @ [Stop, Start (frame CS 1 3 4)]) Tracker))) = 1"
    by (simp add: input_defs run_defs sqrt_25)
  from 1 2 3 4 5 6 7 show ?thesis by blast
qed

text \<open>A loss, a stop and further calls after the steady session.\<close>

theorem window_never_cleared_witness:
  "headDiagonal (state_of (track default_params (frame CS 1 0 0)
       (execs default_params steady_session Tracker))) = [Fin 5, Fin 5, Fin 5, Fin 5, Fin 5, Fin 5] \<and>
   headDiagonal (snd (stop (execs default_params steady_session Tracker))) = [Fin 5, Fin 5, Fin 5, Fin 5, Fin 5, Fin 5] \<and>
   6 \<le> length (headDiagonal (execs default_params
       [Timeout 6 (frame CS 1 0 0), Stop, Init canvas0, Start (frame CS 1 3 4)]
       (execs default_params steady_session Tracker)))"
proof -
  let ?s = "execs default_params steady_session Tracker"
  let ?e = "frame CS 1 0 0"
  have h: "detection (tracked ?e) = CS \<and> (width (tracked ?e) = 0 \<or> height (tracked ?e) = 0)"
    by (simp add: frame_def)
  have w: "headDiagonal ?s = [Fin 5, Fin 5, Fin 5, Fin 5, Fin 5, Fin 5]" by (simp add: input_defs run_defs sqrt_25)
  from window_never_cleared[of ?s ?e default_params
      "[Timeout 6 (frame CS 1 0 0), Stop, Init canvas0, Start (frame CS 1 3 4)]"] h
  have "headDiagonal (state_of (track default_params ?e ?s)) = headDiagonal ?s \<and>
        headDiagonal (snd (stop ?s)) = headDiagonal ?s \<and>
        length (headDiagonal ?s) \<le> length (headDiagonal (execs default_params
          [Timeout 6 (frame CS 1 0 0), Stop, Init canvas0, Start (frame CS 1 3 4)] ?s))"
    by blast
  then show ?thesis unfolding w by simp
qed

end
